theory Spec2Isabelle
  imports Complex_Main
begin

section \<open>Data model\<close>

text \<open>
  JavaScript numbers are modelled as mathematical reals: every comparison, sum and
  quotient of the source is the exact one, without rounding, NaN or infinities.
  A value that may be \<open>undefined\<close> or \<open>null\<close> in the source is an \<open>option\<close>.

  The type \<open>Viseme\<close> of \<open>types/index.ts\<close>. The constructors carry the prefix \<open>V_\<close>,
  since the one-letter tags of the source (\<open>E\<close>, \<open>I\<close>, \<open>O\<close>, \<open>U\<close>) would capture the
  variables of every later statement.
\<close>

datatype Viseme =
  V_sil | V_PP | V_FF | V_TH | V_DD | V_kk | V_CH | V_SS | V_nn | V_RR
  | V_aa | V_E | V_I | V_O | V_U

text \<open>\<open>MouthShape\<close> of \<open>types/index.ts\<close> (prefix \<open>M_\<close>: \<open>closed\<close> is a constant of HOL).\<close>

datatype MouthShape = M_closed | M_small | M_medium | M_wide

record VisemeCue =
  viseme :: Viseme
  startTime :: real
  endTime :: real

section \<open>Viseme table (\<open>utils/visemeMapper\<close>)\<close>

fun VISEME_JAW_ROTATION :: "Viseme \<Rightarrow> real" where
  "VISEME_JAW_ROTATION V_sil = 0"
| "VISEME_JAW_ROTATION V_PP = 0.02"
| "VISEME_JAW_ROTATION V_FF = 0.05"
| "VISEME_JAW_ROTATION V_TH = 0.08"
| "VISEME_JAW_ROTATION V_DD = 0.12"
| "VISEME_JAW_ROTATION V_kk = 0.15"
| "VISEME_JAW_ROTATION V_CH = 0.18"
| "VISEME_JAW_ROTATION V_SS = 0.10"
| "VISEME_JAW_ROTATION V_nn = 0.08"
| "VISEME_JAW_ROTATION V_RR = 0.12"
| "VISEME_JAW_ROTATION V_aa = 0.35"
| "VISEME_JAW_ROTATION V_E = 0.25"
| "VISEME_JAW_ROTATION V_I = 0.15"
| "VISEME_JAW_ROTATION V_O = 0.30"
| "VISEME_JAW_ROTATION V_U = 0.20"

definition opennessToViseme :: "real \<Rightarrow> Viseme" where
  "opennessToViseme openness =
     (if openness < 0.1 then V_sil
      else if openness < 0.2 then V_SS
      else if openness < 0.35 then V_I
      else if openness < 0.5 then V_E
      else if openness < 0.7 then V_O
      else V_aa)"

text \<open>
  An entry of \<open>characters\<close> is a JavaScript string; it is modelled as a HOL string of
  8-bit characters, and \<open>toLowerCase\<close> as the map of \<open>A\<close>..\<open>Z\<close> to \<open>a\<close>..\<open>z\<close>. (Strings
  that name an inherited property of a JavaScript object, such as \<open>constructor\<close>, are
  outside the model: the tables below hold their own keys only.)
\<close>

definition toLowerCaseChar :: "char \<Rightarrow> char" where
  "toLowerCaseChar c =
     (let n = (of_char c :: nat) in if 65 \<le> n \<and> n \<le> 90 then char_of (n + 32) else c)"

definition toLowerCase :: "string \<Rightarrow> string" where
  "toLowerCase s = map toLowerCaseChar s"

definition CHAR_TO_VISEME :: "string \<rightharpoonup> Viseme" where
  "CHAR_TO_VISEME = map_of
     [(''p'', V_PP), (''b'', V_PP), (''m'', V_PP),
      (''f'', V_FF), (''v'', V_FF),
      (''t'', V_DD), (''d'', V_DD),
      (''k'', V_kk), (''g'', V_kk), (''c'', V_kk), (''q'', V_kk), (''x'', V_kk),
      (''j'', V_CH),
      (''s'', V_SS), (''z'', V_SS),
      (''n'', V_nn), (''l'', V_nn),
      (''r'', V_RR),
      (''a'', V_aa), (''e'', V_E), (''i'', V_I), (''o'', V_O), (''u'', V_U),
      (''w'', V_U), (''y'', V_I), (''h'', V_sil),
      ('' '', V_sil), (''.'', V_sil), ('','', V_sil), (''!'', V_sil), (''?'', V_sil),
      (''-'', V_sil), ([CHR 0x22], V_sil), ([CHR 0x27], V_sil),
      ([CHR 0x0A], V_sil), ([CHR 0x09], V_sil)]"

definition DIGRAPH_TO_VISEME :: "string \<rightharpoonup> Viseme" where
  "DIGRAPH_TO_VISEME = map_of
     [(''th'', V_TH), (''sh'', V_CH), (''ch'', V_CH), (''zh'', V_CH), (''ng'', V_kk),
      (''ph'', V_FF), (''wh'', V_U), (''ck'', V_kk), (''qu'', V_kk),
      (''ee'', V_I), (''ea'', V_I), (''oo'', V_U), (''ou'', V_O), (''ow'', V_O),
      (''ai'', V_E), (''ay'', V_E), (''oi'', V_O), (''oy'', V_O), (''au'', V_aa),
      (''aw'', V_aa)]"

text \<open>
  \<open>text[index]?.toLowerCase() || ''\<close>: the character at the index as a one-character
  string, or the empty string past the end of the text.
\<close>

definition charAt :: "string \<Rightarrow> nat \<Rightarrow> string" where
  "charAt txt index = (if index < length txt then toLowerCase [txt ! index] else [])"

definition getVisemeAtIndex :: "string \<Rightarrow> nat \<Rightarrow> Viseme \<times> bool" where
  "getVisemeAtIndex txt index =
     (let ch = charAt txt index;
          nextChar = charAt txt (index + 1);
          digraph = ch @ nextChar
      in case DIGRAPH_TO_VISEME digraph of
           Some v \<Rightarrow> (v, True)
         | None \<Rightarrow>
             (case CHAR_TO_VISEME ch of
                Some v \<Rightarrow> (v, False)
              | None \<Rightarrow> (V_sil, False)))"

definition charToViseme :: "string \<Rightarrow> Viseme" where
  "charToViseme ch =
     (let lower = toLowerCase ch in
      case CHAR_TO_VISEME lower of Some v \<Rightarrow> v | None \<Rightarrow> V_sil)"

section \<open>Timeline builder (\<open>utils/visemeTimeline\<close>)\<close>

record AlignmentData =
  characters :: "string list"
  character_start_times_seconds :: "real list"
  character_end_times_seconds :: "real list"

text \<open>Reading an array at an index: \<open>undefined\<close> (here \<open>None\<close>) past its end.\<close>

definition at_index :: "'a list \<Rightarrow> nat \<Rightarrow> 'a option" where
  "at_index xs i = (if i < length xs then Some (xs ! i) else None)"

text \<open>
  The first loop of \<open>generateVisemeTimeline\<close>: \<open>i\<close> runs over the indices of
  \<open>characters\<close>, an entry whose timing is undefined or empty is skipped.
\<close>

function rawCuesLoop :: "AlignmentData \<Rightarrow> nat \<Rightarrow> VisemeCue list \<Rightarrow> VisemeCue list" where
  "rawCuesLoop alignment i rawCues =
     (if i < length (characters alignment) then
        (let ch = characters alignment ! i in
         case (at_index (character_start_times_seconds alignment) i,
               at_index (character_end_times_seconds alignment) i) of
           (Some st, Some en) \<Rightarrow>
             if st \<ge> en then rawCuesLoop alignment (i + 1) rawCues
             else rawCuesLoop alignment (i + 1)
                    (rawCues @ [\<lparr> viseme = charToViseme ch, startTime = st, endTime = en \<rparr>])
         | _ \<Rightarrow> rawCuesLoop alignment (i + 1) rawCues)
      else rawCues)"
  by pat_completeness auto
termination
  by (relation "measure (\<lambda>(alignment, i, rawCues). length (characters alignment) - i)") auto

declare rawCuesLoop.simps [simp del]

text \<open>
  The second loop: a cue of the same viseme that starts less than 50 ms from the end
  of the last merged cue extends that cue (\<open>lastCue.endTime = cue.endTime\<close>, an update
  in place of the last element); any other cue is copied to the end.
\<close>

fun mergeLoop :: "VisemeCue list \<Rightarrow> VisemeCue list \<Rightarrow> VisemeCue list" where
  "mergeLoop [] mergedCues = mergedCues"
| "mergeLoop (cue # rest) mergedCues =
     (if mergedCues \<noteq> [] \<and> viseme (last mergedCues) = viseme cue
         \<and> \<bar>endTime (last mergedCues) - startTime cue\<bar> < 0.05
      then mergeLoop rest (butlast mergedCues @ [(last mergedCues)\<lparr> endTime := endTime cue \<rparr>])
      else mergeLoop rest (mergedCues @ [cue]))"

text \<open>The \<open>unshift\<close> of a leading silence.\<close>

definition addLeadingSilence :: "VisemeCue list \<Rightarrow> VisemeCue list" where
  "addLeadingSilence mergedCues =
     (if mergedCues \<noteq> [] \<and> startTime (hd mergedCues) > 0
      then \<lparr> viseme = V_sil, startTime = 0, endTime = startTime (hd mergedCues) \<rparr> # mergedCues
      else mergedCues)"

text \<open>The third loop: a silence is pushed before a cue that starts more than 10 ms
  after the end of the last cue pushed.\<close>

fun fillLoop :: "VisemeCue list \<Rightarrow> VisemeCue list \<Rightarrow> VisemeCue list" where
  "fillLoop [] filledCues = filledCues"
| "fillLoop (cue # rest) filledCues =
     (if filledCues \<noteq> [] \<and> startTime cue > endTime (last filledCues) + 0.01
      then fillLoop rest
             (filledCues @ [\<lparr> viseme = V_sil, startTime = endTime (last filledCues),
                               endTime = startTime cue \<rparr>] @ [cue])
      else fillLoop rest (filledCues @ [cue]))"

definition generateVisemeTimeline :: "AlignmentData \<Rightarrow> VisemeCue list" where
  "generateVisemeTimeline alignment =
     (if characters alignment = [] then []
      else
        let rawCues = rawCuesLoop alignment 0 [];
            mergedCues = addLeadingSilence (mergeLoop rawCues [])
        in fillLoop mergedCues [])"

definition getTimelineDuration :: "VisemeCue list \<Rightarrow> real" where
  "getTimelineDuration cues = (if cues = [] then 0 else endTime (last cues))"

section \<open>Playback sampler (\<open>utils/visemeTimeline\<close>, \<open>hooks/useLipSync\<close>)\<close>

text \<open>
  \<open>getInterpolatedJawRotation\<close>; the fourth parameter is \<open>transitionStart\<close>, whose
  default \<open>0.7\<close> is supplied by \<open>jawRotationDefault\<close>. \<open>!nextViseme\<close> holds exactly for
  \<open>null\<close>, every viseme tag being a non-empty string.
\<close>

definition getInterpolatedJawRotation :: "Viseme \<Rightarrow> Viseme option \<Rightarrow> real \<Rightarrow> real \<Rightarrow> real" where
  "getInterpolatedJawRotation currentViseme nextViseme progress transitionStart =
     (let currentRotation = VISEME_JAW_ROTATION currentViseme in
      case nextViseme of
        None \<Rightarrow> currentRotation
      | Some nv \<Rightarrow>
          if progress < transitionStart then currentRotation
          else
            let nextRotation = VISEME_JAW_ROTATION nv;
                transitionProgress = (progress - transitionStart) / (1 - transitionStart);
                easedProgress = 1 - (1 - transitionProgress) ^ 2
            in currentRotation + (nextRotation - currentRotation) * easedProgress)"

definition jawRotationDefault :: "Viseme \<Rightarrow> Viseme option \<Rightarrow> real \<Rightarrow> real" where
  "jawRotationDefault currentViseme nextViseme progress =
     getInterpolatedJawRotation currentViseme nextViseme progress 0.7"

text \<open>
  \<open>getVisemeAtTime\<close>. The fields \<open>viseme\<close>, \<open>progress\<close>, \<open>nextViseme\<close> of its result are named
  \<open>atViseme\<close>, \<open>atProgress\<close>, \<open>atNextViseme\<close> here. \<open>findCue\<close> is the
  loop over the cues with its early return, \<open>rest\<close> holding \<open>cues[i + 1]\<close> onwards.
\<close>

record VisemeAtTime =
  atViseme :: Viseme
  atProgress :: real
  atNextViseme :: "Viseme option"

fun findCue :: "VisemeCue list \<Rightarrow> real \<Rightarrow> VisemeAtTime option" where
  "findCue [] t = None"
| "findCue (cue # rest) t =
     (if t \<ge> startTime cue \<and> t < endTime cue then
        (let duration = endTime cue - startTime cue;
             elapsed = t - startTime cue
         in Some \<lparr> atViseme = viseme cue,
                   atProgress = (if duration > 0 then elapsed / duration else 1),
                   atNextViseme = (case rest of [] \<Rightarrow> None | nextCue # _ \<Rightarrow> Some (viseme nextCue)) \<rparr>)
      else findCue rest t)"

definition getVisemeAtTime :: "VisemeCue list \<Rightarrow> real \<Rightarrow> VisemeAtTime" where
  "getVisemeAtTime cues t =
     (if cues = [] then \<lparr> atViseme = V_sil, atProgress = 1, atNextViseme = None \<rparr>
      else
        case findCue cues t of
          Some r \<Rightarrow> r
        | None \<Rightarrow>
            if t \<ge> endTime (last cues)
            then \<lparr> atViseme = V_sil, atProgress = 1, atNextViseme = None \<rparr>
            else \<lparr> atViseme = V_sil, atProgress = 1, atNextViseme = Some (viseme (hd cues)) \<rparr>)"

text \<open>\<open>THRESHOLDS\<close> and \<open>getMouthShapeFromAmplitude\<close> of \<open>useLipSync\<close>.\<close>

definition getMouthShapeFromAmplitude :: "real \<Rightarrow> MouthShape" where
  "getMouthShapeFromAmplitude amplitude =
     (if amplitude < 15 then M_closed
      else if amplitude < 35 then M_small
      else if amplitude < 60 then M_medium
      else M_wide)"

subsection \<open>The lip-sync hook \<open>useLipSync\<close>\<close>

datatype TriggerType = emphasis | question | exclaim

record GestureTrigger =
  time :: real
  ttype :: TriggerType

text \<open>
  The state of one \<open>useLipSync\<close> instance: the eight \<open>useState\<close> cells, then the refs.
  Of the audio graph only what the control flow reads is kept: whether the context,
  the analyser and the source exist, and whether an animation frame is requested.
\<close>

record LipSync =
  mouthShape :: MouthShape
  mouthOpenness :: real
  currentViseme :: Viseme
  jawRotation :: real
  amplitude :: real
  isPlaying :: bool
  playbackTime :: real
  gestureTriggers :: "GestureTrigger list"
  audioContextRef :: bool
  analyserRef :: bool
  sourceRef :: bool
  animationFrameRef :: bool
  isPlayingRef :: bool
  smoothedAmplitudeRef :: real
  startTimeRef :: real
  visemeCuesRef :: "VisemeCue list option"
  previousJawRotationRef :: real

definition initialLipSync :: LipSync where
  "initialLipSync =
     \<lparr> mouthShape = M_closed, mouthOpenness = 0, currentViseme = V_sil, jawRotation = 0,
       amplitude = 0, isPlaying = False, playbackTime = 0, gestureTriggers = [],
       audioContextRef = False, analyserRef = False, sourceRef = False,
       animationFrameRef = False, isPlayingRef = False, smoothedAmplitudeRef = 0,
       startTimeRef = 0, visemeCuesRef = None, previousJawRotationRef = 0 \<rparr>"

definition SMOOTHING_FACTOR :: real where
  "SMOOTHING_FACTOR = 0.3"

text \<open>The viseme-based branch of \<open>analyzeAudio\<close>.\<close>

definition preciseLipSync :: "VisemeCue list \<Rightarrow> real \<Rightarrow> LipSync \<Rightarrow> LipSync" where
  "preciseLipSync cues currentTime s =
     (let r = getVisemeAtTime cues currentTime;
          targetJaw = jawRotationDefault (atViseme r) (atNextViseme r) (atProgress r);
          smoothedJaw = previousJawRotationRef s * 0.3 + targetJaw * 0.7;
          openness = min 1 (smoothedJaw / 0.35)
      in s\<lparr> currentViseme := atViseme r, previousJawRotationRef := smoothedJaw,
             jawRotation := smoothedJaw, mouthOpenness := openness,
             mouthShape := getMouthShapeFromAmplitude (openness * 80) \<rparr>)"

text \<open>The amplitude-based branch of \<open>analyzeAudio\<close>.\<close>

definition amplitudeFallback :: "real \<Rightarrow> LipSync \<Rightarrow> LipSync" where
  "amplitudeFallback smoothedAmplitude s =
     (let shape = getMouthShapeFromAmplitude smoothedAmplitude;
          openness = min 1 (max 0 (smoothedAmplitude / 80));
          v = opennessToViseme openness
      in s\<lparr> mouthShape := shape, mouthOpenness := openness, currentViseme := v,
             jawRotation := VISEME_JAW_ROTATION v \<rparr>)"

text \<open>
  One tick of \<open>analyzeAudio\<close>. \<open>average\<close> is the mean of the analyser's frequency bytes and
  \<open>ctxTime\<close> the audio context's clock, both read from the browser.
\<close>

definition analyzeAudio :: "real \<Rightarrow> real \<Rightarrow> LipSync \<Rightarrow> LipSync" where
  "analyzeAudio average ctxTime s =
     (if \<not> analyserRef s \<or> \<not> audioContextRef s then s
      else
        let rawAmplitude = (average / 255) * 100;
            smoothedAmplitude =
              smoothedAmplitudeRef s * SMOOTHING_FACTOR + rawAmplitude * (1 - SMOOTHING_FACTOR);
            currentTime = ctxTime - startTimeRef s;
            s1 = s\<lparr> smoothedAmplitudeRef := smoothedAmplitude, amplitude := smoothedAmplitude,
                     playbackTime := currentTime \<rparr>;
            s2 = (case visemeCuesRef s1 of
                    Some cues \<Rightarrow>
                      if length cues > 0 then preciseLipSync cues currentTime s1
                      else amplitudeFallback smoothedAmplitude s1
                  | None \<Rightarrow> amplitudeFallback smoothedAmplitude s1)
        in if isPlayingRef s2 then s2\<lparr> animationFrameRef := True \<rparr> else s2)"

text \<open>
  \<open>playAudio\<close>, taken as one step (its awaits are not interleaved with other calls).
  \<open>cues\<close> is \<open>speechResult.visemeCues\<close>, \<open>triggers\<close> the result of \<open>findGestureTriggers\<close> on
  the alignment data (empty without alignment data), \<open>ctxTime\<close> the context's clock when
  the source starts. The refs of the two smoothed values are not written here.
\<close>

definition playAudio :: "VisemeCue list option \<Rightarrow> GestureTrigger list \<Rightarrow> real \<Rightarrow> LipSync \<Rightarrow> LipSync" where
  "playAudio cues triggers ctxTime s =
     s\<lparr> visemeCuesRef := cues, gestureTriggers := triggers, audioContextRef := True,
        analyserRef := True, sourceRef := True, isPlayingRef := True,
        startTimeRef := ctxTime, isPlaying := True, animationFrameRef := True \<rparr>"

definition stopAudio :: "LipSync \<Rightarrow> LipSync" where
  "stopAudio s =
     s\<lparr> sourceRef := False, animationFrameRef := False, isPlayingRef := False,
        smoothedAmplitudeRef := 0, previousJawRotationRef := 0, visemeCuesRef := None,
        isPlaying := False, mouthShape := M_closed, mouthOpenness := 0,
        currentViseme := V_sil, jawRotation := 0, amplitude := 0, playbackTime := 0,
        gestureTriggers := [] \<rparr>"

section \<open>Gesture library (\<open>data/gestures\<close>)\<close>

datatype GestureType =
  armFlailLeft | armFlailRight | armFlailBoth | headShake | headNod
  | pointLeft | pointRight | shrug | leanForward | leanBack

text \<open>
  A rotation \<open>{x?, y?, z?}\<close> (fields \<open>rx\<close>, \<open>ry\<close>, \<open>rz\<close>; an absent axis is \<open>None\<close>), and a
  rotation of a named bone as it stands in a keyframe.
\<close>

record Rotation =
  rx :: "real option"
  ry :: "real option"
  rz :: "real option"

record BoneRotation = Rotation +
  bone :: string

record GestureKeyframe =
  kf_time :: real
  rotations :: "BoneRotation list"

record GestureDefinition =
  dtype :: GestureType
  def_duration :: real
  keyframes :: "GestureKeyframe list"
  canInterrupt :: bool
  priority :: nat

definition easeInOut :: "real \<Rightarrow> real" where
  "easeInOut t = (if t < 0.5 then 2 * t * t else 1 - (- 2 * t + 2) ^ 2 / 2)"

definition armFlailLeft_gesture :: GestureDefinition where
  "armFlailLeft_gesture =
     \<lparr> dtype = armFlailLeft, def_duration = 0.4, keyframes =
        [\<lparr> kf_time = 0, rotations =
             [\<lparr> rx = Some 0, ry = None, rz = Some 1.2, bone = ''leftArm'' \<rparr>,
              \<lparr> rx = None, ry = Some 0, rz = Some 0.3, bone = ''leftForeArm'' \<rparr>] \<rparr>,
         \<lparr> kf_time = 0.2, rotations =
             [\<lparr> rx = Some (- 0.5), ry = None, rz = Some 0.3, bone = ''leftArm'' \<rparr>,
              \<lparr> rx = None, ry = Some 0.3, rz = Some 0.8, bone = ''leftForeArm'' \<rparr>] \<rparr>,
         \<lparr> kf_time = 0.5, rotations =
             [\<lparr> rx = Some 0.3, ry = None, rz = Some 0.6, bone = ''leftArm'' \<rparr>,
              \<lparr> rx = None, ry = Some (- 0.2), rz = Some 0.5, bone = ''leftForeArm'' \<rparr>] \<rparr>,
         \<lparr> kf_time = 1, rotations =
             [\<lparr> rx = Some 0, ry = None, rz = Some 1.2, bone = ''leftArm'' \<rparr>,
              \<lparr> rx = None, ry = Some 0, rz = Some 0.3, bone = ''leftForeArm'' \<rparr>] \<rparr>],
       canInterrupt = True, priority = 2 \<rparr>"

definition armFlailRight_gesture :: GestureDefinition where
  "armFlailRight_gesture =
     \<lparr> dtype = armFlailRight, def_duration = 0.4, keyframes =
        [\<lparr> kf_time = 0, rotations =
             [\<lparr> rx = Some 0, ry = None, rz = Some (- 1.2), bone = ''rightArm'' \<rparr>,
              \<lparr> rx = None, ry = Some 0, rz = Some (- 0.3), bone = ''rightForeArm'' \<rparr>] \<rparr>,
         \<lparr> kf_time = 0.2, rotations =
             [\<lparr> rx = Some (- 0.5), ry = None, rz = Some (- 0.3), bone = ''rightArm'' \<rparr>,
              \<lparr> rx = None, ry = Some (- 0.3), rz = Some (- 0.8), bone = ''rightForeArm'' \<rparr>] \<rparr>,
         \<lparr> kf_time = 0.5, rotations =
             [\<lparr> rx = Some 0.3, ry = None, rz = Some (- 0.6), bone = ''rightArm'' \<rparr>,
              \<lparr> rx = None, ry = Some 0.2, rz = Some (- 0.5), bone = ''rightForeArm'' \<rparr>] \<rparr>,
         \<lparr> kf_time = 1, rotations =
             [\<lparr> rx = Some 0, ry = None, rz = Some (- 1.2), bone = ''rightArm'' \<rparr>,
              \<lparr> rx = None, ry = Some 0, rz = Some (- 0.3), bone = ''rightForeArm'' \<rparr>] \<rparr>],
       canInterrupt = True, priority = 2 \<rparr>"

definition armFlailBoth_gesture :: GestureDefinition where
  "armFlailBoth_gesture =
     \<lparr> dtype = armFlailBoth, def_duration = 0.5, keyframes =
        [\<lparr> kf_time = 0, rotations =
             [\<lparr> rx = None, ry = None, rz = Some 1.2, bone = ''leftArm'' \<rparr>,
              \<lparr> rx = None, ry = None, rz = Some (- 1.2), bone = ''rightArm'' \<rparr>,
              \<lparr> rx = Some 0, ry = None, rz = None, bone = ''spine2'' \<rparr>] \<rparr>,
         \<lparr> kf_time = 0.15, rotations =
             [\<lparr> rx = Some (- 0.4), ry = None, rz = Some 0.2, bone = ''leftArm'' \<rparr>,
              \<lparr> rx = Some (- 0.4), ry = None, rz = Some (- 0.2), bone = ''rightArm'' \<rparr>,
              \<lparr> rx = Some (- 0.1), ry = None, rz = None, bone = ''spine2'' \<rparr>] \<rparr>,
         \<lparr> kf_time = 0.4, rotations =
             [\<lparr> rx = Some 0.3, ry = None, rz = Some 0.5, bone = ''leftArm'' \<rparr>,
              \<lparr> rx = Some 0.3, ry = None, rz = Some (- 0.5), bone = ''rightArm'' \<rparr>,
              \<lparr> rx = Some 0.1, ry = None, rz = None, bone = ''spine2'' \<rparr>] \<rparr>,
         \<lparr> kf_time = 1, rotations =
             [\<lparr> rx = None, ry = None, rz = Some 1.2, bone = ''leftArm'' \<rparr>,
              \<lparr> rx = None, ry = None, rz = Some (- 1.2), bone = ''rightArm'' \<rparr>,
              \<lparr> rx = Some 0, ry = None, rz = None, bone = ''spine2'' \<rparr>] \<rparr>],
       canInterrupt = False, priority = 3 \<rparr>"

definition headShake_gesture :: GestureDefinition where
  "headShake_gesture =
     \<lparr> dtype = headShake, def_duration = 0.3, keyframes =
        [\<lparr> kf_time = 0, rotations =
             [\<lparr> rx = None, ry = Some 0, rz = None, bone = ''head'' \<rparr>] \<rparr>,
         \<lparr> kf_time = 0.15, rotations =
             [\<lparr> rx = None, ry = Some 0.2, rz = None, bone = ''head'' \<rparr>] \<rparr>,
         \<lparr> kf_time = 0.35, rotations =
             [\<lparr> rx = None, ry = Some (- 0.2), rz = None, bone = ''head'' \<rparr>] \<rparr>,
         \<lparr> kf_time = 0.55, rotations =
             [\<lparr> rx = None, ry = Some 0.15, rz = None, bone = ''head'' \<rparr>] \<rparr>,
         \<lparr> kf_time = 0.75, rotations =
             [\<lparr> rx = None, ry = Some (- 0.1), rz = None, bone = ''head'' \<rparr>] \<rparr>,
         \<lparr> kf_time = 1, rotations =
             [\<lparr> rx = None, ry = Some 0, rz = None, bone = ''head'' \<rparr>] \<rparr>],
       canInterrupt = True, priority = 1 \<rparr>"

definition headNod_gesture :: GestureDefinition where
  "headNod_gesture =
     \<lparr> dtype = headNod, def_duration = 0.25, keyframes =
        [\<lparr> kf_time = 0, rotations =
             [\<lparr> rx = Some 0, ry = None, rz = None, bone = ''head'' \<rparr>] \<rparr>,
         \<lparr> kf_time = 0.3, rotations =
             [\<lparr> rx = Some 0.15, ry = None, rz = None, bone = ''head'' \<rparr>] \<rparr>,
         \<lparr> kf_time = 0.6, rotations =
             [\<lparr> rx = Some (- 0.05), ry = None, rz = None, bone = ''head'' \<rparr>] \<rparr>,
         \<lparr> kf_time = 1, rotations =
             [\<lparr> rx = Some 0, ry = None, rz = None, bone = ''head'' \<rparr>] \<rparr>],
       canInterrupt = True, priority = 1 \<rparr>"

definition pointLeft_gesture :: GestureDefinition where
  "pointLeft_gesture =
     \<lparr> dtype = pointLeft, def_duration = 0.5, keyframes =
        [\<lparr> kf_time = 0, rotations =
             [\<lparr> rx = Some 0, ry = Some 0, rz = Some 1.2, bone = ''leftArm'' \<rparr>,
              \<lparr> rx = None, ry = None, rz = Some 0.3, bone = ''leftForeArm'' \<rparr>,
              \<lparr> rx = None, ry = None, rz = Some 0, bone = ''leftHand'' \<rparr>] \<rparr>,
         \<lparr> kf_time = 0.3, rotations =
             [\<lparr> rx = Some (- 0.3), ry = Some 0.5, rz = Some 0.4, bone = ''leftArm'' \<rparr>,
              \<lparr> rx = None, ry = None, rz = Some 0.1, bone = ''leftForeArm'' \<rparr>,
              \<lparr> rx = None, ry = None, rz = Some (- 0.2), bone = ''leftHand'' \<rparr>] \<rparr>,
         \<lparr> kf_time = 0.7, rotations =
             [\<lparr> rx = Some (- 0.3), ry = Some 0.5, rz = Some 0.4, bone = ''leftArm'' \<rparr>,
              \<lparr> rx = None, ry = None, rz = Some 0.1, bone = ''leftForeArm'' \<rparr>,
              \<lparr> rx = None, ry = None, rz = Some (- 0.2), bone = ''leftHand'' \<rparr>] \<rparr>,
         \<lparr> kf_time = 1, rotations =
             [\<lparr> rx = Some 0, ry = Some 0, rz = Some 1.2, bone = ''leftArm'' \<rparr>,
              \<lparr> rx = None, ry = None, rz = Some 0.3, bone = ''leftForeArm'' \<rparr>,
              \<lparr> rx = None, ry = None, rz = Some 0, bone = ''leftHand'' \<rparr>] \<rparr>],
       canInterrupt = True, priority = 2 \<rparr>"

definition pointRight_gesture :: GestureDefinition where
  "pointRight_gesture =
     \<lparr> dtype = pointRight, def_duration = 0.5, keyframes =
        [\<lparr> kf_time = 0, rotations =
             [\<lparr> rx = Some 0, ry = Some 0, rz = Some (- 1.2), bone = ''rightArm'' \<rparr>,
              \<lparr> rx = None, ry = None, rz = Some (- 0.3), bone = ''rightForeArm'' \<rparr>,
              \<lparr> rx = None, ry = None, rz = Some 0, bone = ''rightHand'' \<rparr>] \<rparr>,
         \<lparr> kf_time = 0.3, rotations =
             [\<lparr> rx = Some (- 0.3), ry = Some (- 0.5), rz = Some (- 0.4), bone = ''rightArm'' \<rparr>,
              \<lparr> rx = None, ry = None, rz = Some (- 0.1), bone = ''rightForeArm'' \<rparr>,
              \<lparr> rx = None, ry = None, rz = Some 0.2, bone = ''rightHand'' \<rparr>] \<rparr>,
         \<lparr> kf_time = 0.7, rotations =
             [\<lparr> rx = Some (- 0.3), ry = Some (- 0.5), rz = Some (- 0.4), bone = ''rightArm'' \<rparr>,
              \<lparr> rx = None, ry = None, rz = Some (- 0.1), bone = ''rightForeArm'' \<rparr>,
              \<lparr> rx = None, ry = None, rz = Some 0.2, bone = ''rightHand'' \<rparr>] \<rparr>,
         \<lparr> kf_time = 1, rotations =
             [\<lparr> rx = Some 0, ry = Some 0, rz = Some (- 1.2), bone = ''rightArm'' \<rparr>,
              \<lparr> rx = None, ry = None, rz = Some (- 0.3), bone = ''rightForeArm'' \<rparr>,
              \<lparr> rx = None, ry = None, rz = Some 0, bone = ''rightHand'' \<rparr>] \<rparr>],
       canInterrupt = True, priority = 2 \<rparr>"

definition shrug_gesture :: GestureDefinition where
  "shrug_gesture =
     \<lparr> dtype = shrug, def_duration = 0.4, keyframes =
        [\<lparr> kf_time = 0, rotations =
             [\<lparr> rx = None, ry = Some 0, rz = None, bone = ''leftShoulder'' \<rparr>,
              \<lparr> rx = None, ry = Some 0, rz = None, bone = ''rightShoulder'' \<rparr>,
              \<lparr> rx = None, ry = None, rz = Some 0, bone = ''head'' \<rparr>] \<rparr>,
         \<lparr> kf_time = 0.25, rotations =
             [\<lparr> rx = None, ry = Some 0.3, rz = None, bone = ''leftShoulder'' \<rparr>,
              \<lparr> rx = None, ry = Some (- 0.3), rz = None, bone = ''rightShoulder'' \<rparr>,
              \<lparr> rx = None, ry = None, rz = Some 0.1, bone = ''head'' \<rparr>] \<rparr>,
         \<lparr> kf_time = 0.6, rotations =
             [\<lparr> rx = None, ry = Some 0.25, rz = None, bone = ''leftShoulder'' \<rparr>,
              \<lparr> rx = None, ry = Some (- 0.25), rz = None, bone = ''rightShoulder'' \<rparr>,
              \<lparr> rx = None, ry = None, rz = Some 0.08, bone = ''head'' \<rparr>] \<rparr>,
         \<lparr> kf_time = 1, rotations =
             [\<lparr> rx = None, ry = Some 0, rz = None, bone = ''leftShoulder'' \<rparr>,
              \<lparr> rx = None, ry = Some 0, rz = None, bone = ''rightShoulder'' \<rparr>,
              \<lparr> rx = None, ry = None, rz = Some 0, bone = ''head'' \<rparr>] \<rparr>],
       canInterrupt = True, priority = 2 \<rparr>"

definition leanForward_gesture :: GestureDefinition where
  "leanForward_gesture =
     \<lparr> dtype = leanForward, def_duration = 0.3, keyframes =
        [\<lparr> kf_time = 0, rotations =
             [\<lparr> rx = Some 0, ry = None, rz = None, bone = ''spine'' \<rparr>,
              \<lparr> rx = Some 0, ry = None, rz = None, bone = ''spine1'' \<rparr>,
              \<lparr> rx = Some 0, ry = None, rz = None, bone = ''neck'' \<rparr>] \<rparr>,
         \<lparr> kf_time = 0.4, rotations =
             [\<lparr> rx = Some 0.1, ry = None, rz = None, bone = ''spine'' \<rparr>,
              \<lparr> rx = Some 0.08, ry = None, rz = None, bone = ''spine1'' \<rparr>,
              \<lparr> rx = Some 0.05, ry = None, rz = None, bone = ''neck'' \<rparr>] \<rparr>,
         \<lparr> kf_time = 0.7, rotations =
             [\<lparr> rx = Some 0.1, ry = None, rz = None, bone = ''spine'' \<rparr>,
              \<lparr> rx = Some 0.08, ry = None, rz = None, bone = ''spine1'' \<rparr>,
              \<lparr> rx = Some 0.05, ry = None, rz = None, bone = ''neck'' \<rparr>] \<rparr>,
         \<lparr> kf_time = 1, rotations =
             [\<lparr> rx = Some 0, ry = None, rz = None, bone = ''spine'' \<rparr>,
              \<lparr> rx = Some 0, ry = None, rz = None, bone = ''spine1'' \<rparr>,
              \<lparr> rx = Some 0, ry = None, rz = None, bone = ''neck'' \<rparr>] \<rparr>],
       canInterrupt = True, priority = 1 \<rparr>"

definition leanBack_gesture :: GestureDefinition where
  "leanBack_gesture =
     \<lparr> dtype = leanBack, def_duration = 0.3, keyframes =
        [\<lparr> kf_time = 0, rotations =
             [\<lparr> rx = Some 0, ry = None, rz = None, bone = ''spine'' \<rparr>,
              \<lparr> rx = Some 0, ry = None, rz = None, bone = ''spine1'' \<rparr>,
              \<lparr> rx = Some 0, ry = None, rz = None, bone = ''neck'' \<rparr>] \<rparr>,
         \<lparr> kf_time = 0.4, rotations =
             [\<lparr> rx = Some (- 0.08), ry = None, rz = None, bone = ''spine'' \<rparr>,
              \<lparr> rx = Some (- 0.06), ry = None, rz = None, bone = ''spine1'' \<rparr>,
              \<lparr> rx = Some (- 0.04), ry = None, rz = None, bone = ''neck'' \<rparr>] \<rparr>,
         \<lparr> kf_time = 0.7, rotations =
             [\<lparr> rx = Some (- 0.08), ry = None, rz = None, bone = ''spine'' \<rparr>,
              \<lparr> rx = Some (- 0.06), ry = None, rz = None, bone = ''spine1'' \<rparr>,
              \<lparr> rx = Some (- 0.04), ry = None, rz = None, bone = ''neck'' \<rparr>] \<rparr>,
         \<lparr> kf_time = 1, rotations =
             [\<lparr> rx = Some 0, ry = None, rz = None, bone = ''spine'' \<rparr>,
              \<lparr> rx = Some 0, ry = None, rz = None, bone = ''spine1'' \<rparr>,
              \<lparr> rx = Some 0, ry = None, rz = None, bone = ''neck'' \<rparr>] \<rparr>],
       canInterrupt = True, priority = 1 \<rparr>"

fun GESTURE_LIBRARY :: "GestureType \<Rightarrow> GestureDefinition" where
  "GESTURE_LIBRARY armFlailLeft = armFlailLeft_gesture"
| "GESTURE_LIBRARY armFlailRight = armFlailRight_gesture"
| "GESTURE_LIBRARY armFlailBoth = armFlailBoth_gesture"
| "GESTURE_LIBRARY headShake = headShake_gesture"
| "GESTURE_LIBRARY headNod = headNod_gesture"
| "GESTURE_LIBRARY pointLeft = pointLeft_gesture"
| "GESTURE_LIBRARY pointRight = pointRight_gesture"
| "GESTURE_LIBRARY shrug = shrug_gesture"
| "GESTURE_LIBRARY leanForward = leanForward_gesture"
| "GESTURE_LIBRARY leanBack = leanBack_gesture"

text \<open>
  \<open>getGestureForTrigger\<close>; \<open>r\<close> is the value of \<open>Math.random()\<close>. An index outside the
  array reads \<open>undefined\<close>, here \<open>None\<close>.
\<close>

definition gestureMap :: "TriggerType \<Rightarrow> GestureType list" where
  "gestureMap triggerType =
     (case triggerType of
        emphasis \<Rightarrow> [headNod, pointLeft, pointRight, leanForward]
      | question \<Rightarrow> [headShake, shrug, leanBack]
      | exclaim \<Rightarrow> [armFlailBoth, armFlailLeft, armFlailRight, leanForward])"

definition getGestureForTrigger :: "real \<Rightarrow> TriggerType \<Rightarrow> GestureType option" where
  "getGestureForTrigger r triggerType =
     (let options = gestureMap triggerType;
          k = \<lfloor>r * real (length options)\<rfloor>
      in if 0 \<le> k \<and> k < int (length options) then Some (options ! nat k) else None)"

text \<open>
  \<open>interpolateKeyframes\<close>. The result, a \<open>Map\<close> from bone names to rotations, is the list
  of its entries in insertion order; \<open>boneNames\<close> is the \<open>Set\<close> of the bone names of both
  keyframes in the order of their first occurrence.
\<close>

fun setOf :: "'a list \<Rightarrow> 'a list \<Rightarrow> 'a list" where
  "setOf [] seen = seen"
| "setOf (b # bs) seen = (if b \<in> set seen then setOf bs seen else setOf bs (seen @ [b]))"

definition interpolateAxis :: "real option \<Rightarrow> real option \<Rightarrow> real \<Rightarrow> real option" where
  "interpolateAxis a1 a2 t =
     (case (a1, a2) of
        (Some v1, Some v2) \<Rightarrow> Some (v1 + (v2 - v1) * t)
      | (Some v1, None) \<Rightarrow> Some v1
      | (None, a) \<Rightarrow> a)"

definition interpolateBone :: "GestureKeyframe \<Rightarrow> GestureKeyframe \<Rightarrow> real \<Rightarrow> string \<Rightarrow> (string \<times> Rotation) list" where
  "interpolateBone kf1 kf2 t boneName =
     (case (find (\<lambda>r. bone r = boneName) (rotations kf1),
            find (\<lambda>r. bone r = boneName) (rotations kf2)) of
        (Some rot1, Some rot2) \<Rightarrow>
          [(boneName, \<lparr> rx = interpolateAxis (rx rot1) (rx rot2) t,
                        ry = interpolateAxis (ry rot1) (ry rot2) t,
                        rz = interpolateAxis (rz rot1) (rz rot2) t \<rparr>)]
      | (Some rot1, None) \<Rightarrow> [(boneName, \<lparr> rx = rx rot1, ry = ry rot1, rz = rz rot1 \<rparr>)]
      | (None, Some rot2) \<Rightarrow> [(boneName, \<lparr> rx = rx rot2, ry = ry rot2, rz = rz rot2 \<rparr>)]
      | (None, None) \<Rightarrow> [])"

definition interpolateKeyframes :: "GestureKeyframe \<Rightarrow> GestureKeyframe \<Rightarrow> real \<Rightarrow> (real \<Rightarrow> real) \<Rightarrow> (string \<times> Rotation) list" where
  "interpolateKeyframes kf1 kf2 progress easing =
     (let t = easing progress;
          boneNames = setOf (map bone (rotations kf1) @ map bone (rotations kf2)) []
      in concat (map (interpolateBone kf1 kf2 t) boneNames))"

text \<open>
  \<open>getGestureRotations\<close>. \<open>scanKeyframes\<close> is the loop over \<open>i\<close> with its \<open>break\<close>;
  \<open>selectKeyframes\<close> gives \<open>kf1\<close> and \<open>kf2\<close> after the loop, which start as the first and the
  last keyframe. With no keyframe at all both are \<open>undefined\<close> and reading \<open>kf2.time\<close>
  throws: the result is \<open>None\<close>.
\<close>

fun scanKeyframes :: "GestureKeyframe list \<Rightarrow> real \<Rightarrow> (GestureKeyframe \<times> GestureKeyframe) option" where
  "scanKeyframes (k # k' # rest) progress =
     (if progress \<ge> kf_time k \<and> progress \<le> kf_time k' then Some (k, k')
      else scanKeyframes (k' # rest) progress)"
| "scanKeyframes _ progress = None"

definition selectKeyframes :: "GestureKeyframe list \<Rightarrow> real \<Rightarrow> (GestureKeyframe \<times> GestureKeyframe) option" where
  "selectKeyframes kfs progress =
     (if kfs = [] then None
      else case scanKeyframes kfs progress of
             Some pair \<Rightarrow> Some pair
           | None \<Rightarrow> Some (hd kfs, last kfs))"

definition getGestureRotations :: "GestureDefinition \<Rightarrow> real \<Rightarrow> (string \<times> Rotation) list option" where
  "getGestureRotations gesture progress =
     (case selectKeyframes (keyframes gesture) progress of
        None \<Rightarrow> None
      | Some (kf1, kf2) \<Rightarrow>
          let localProgress =
                (if kf_time kf2 > kf_time kf1
                 then (progress - kf_time kf1) / (kf_time kf2 - kf_time kf1) else 0)
          in Some (interpolateKeyframes kf1 kf2 localProgress easeInOut))"

section \<open>Gesture state machine (\<open>hooks/useAnimationState\<close>)\<close>

datatype AnimationState = idle | speaking | agitated

record Gesture =
  gtype :: GestureType
  duration :: real
  intensity :: real

text \<open>The fields of the behaviour preset that the hook reads.\<close>

record AnimationPreset =
  emphasisProbability :: real
  exclamationIntensity :: real
  twitchFrequency :: real
  twitchIntensity :: real

text \<open>
  The state of one \<open>useAnimationState\<close> instance: the \<open>useState\<close> cells \<open>animationState\<close>,
  \<open>activeGesture\<close>, \<open>gestureProgress\<close>, then the refs. \<open>randomCalls\<close> counts the calls of
  \<open>Math.random()\<close> made so far: the \<open>n\<close>-th call returns \<open>rnd n\<close> for a function \<open>rnd\<close> given
  from outside. \<open>firedLog\<close> is not a variable of the source: it records, in order, the
  triggers that passed the window test of the trigger effect.
\<close>

record AnimState =
  animationState :: AnimationState
  activeGesture :: "Gesture option"
  gestureProgress :: real
  gestureQueueRef :: "Gesture list"
  gestureStartTimeRef :: "real option"
  lastTwitchTimeRef :: real
  processedTriggersRef :: "real set"
  randomCalls :: nat
  firedLog :: "GestureTrigger list"

definition initialAnimState :: AnimState where
  "initialAnimState =
     \<lparr> animationState = idle, activeGesture = None, gestureProgress = 0,
       gestureQueueRef = [], gestureStartTimeRef = None, lastTwitchTimeRef = 0,
       processedTriggersRef = {}, randomCalls = 0, firedLog = [] \<rparr>"

text \<open>The effect on \<open>[isPlaying, amplitude]\<close>.\<close>

definition stateEffect :: "bool \<Rightarrow> real \<Rightarrow> AnimState \<Rightarrow> AnimState" where
  "stateEffect playing amp s =
     (if playing then
        (if amp > 60 then s\<lparr> animationState := agitated \<rparr>
         else s\<lparr> animationState := speaking \<rparr>)
      else s\<lparr> animationState := idle, processedTriggersRef := {} \<rparr>)"

text \<open>
  \<open>queueGesture\<close>. \<open>active\<close> is the \<open>activeGesture\<close> that the callback closed over, \<open>now\<close> the
  value of \<open>performance.now()\<close>. Every gesture type has an entry in the library, so the
  test \<open>!definition\<close> fails only for a type that is \<open>undefined\<close>, here \<open>None\<close>; the
  priorities of the library are positive, so \<open>priority || 0\<close> is the priority.
\<close>

definition queueGesture :: "Gesture option \<Rightarrow> GestureType option \<Rightarrow> real \<Rightarrow> real \<Rightarrow> AnimState \<Rightarrow> AnimState" where
  "queueGesture active type intens now s =
     (case type of
        None \<Rightarrow> s
      | Some ty \<Rightarrow>
          let defn = GESTURE_LIBRARY ty;
              gesture = \<lparr> gtype = ty, duration = def_duration defn, intensity = intens \<rparr>
          in case active of
               None \<Rightarrow>
                 s\<lparr> activeGesture := Some gesture, gestureStartTimeRef := Some now,
                    gestureProgress := 0 \<rparr>
             | Some current \<Rightarrow>
                 if priority defn > priority (GESTURE_LIBRARY (gtype current))
                 then s\<lparr> activeGesture := Some gesture, gestureStartTimeRef := Some now,
                         gestureProgress := 0 \<rparr>
                 else s\<lparr> gestureQueueRef := gestureQueueRef s @ [gesture] \<rparr>)"

text \<open>
  The effect that processes the gesture triggers: \<open>triggerLoop\<close> is its \<open>for\<close> loop,
  \<open>triggerEffect\<close> the whole body. All calls of \<open>queueGesture\<close> in one run share the
  \<open>activeGesture\<close> of the render that created the effect. The parameters \<open>playing\<close> and
  \<open>pbTime\<close> are \<open>isPlaying\<close> and \<open>playbackTime\<close>.
\<close>

fun triggerLoop :: "(nat \<Rightarrow> real) \<Rightarrow> AnimationPreset \<Rightarrow> Gesture option \<Rightarrow> real \<Rightarrow> real \<Rightarrow> GestureTrigger list \<Rightarrow> AnimState \<Rightarrow> AnimState" where
  "triggerLoop rnd preset active now pbTime [] s = s"
| "triggerLoop rnd preset active now pbTime (trigger # rest) s =
     (if time trigger \<in> processedTriggersRef s
      then triggerLoop rnd preset active now pbTime rest s
      else if pbTime \<ge> time trigger - 0.05 \<and> pbTime \<le> time trigger + 0.2 then
        (let s1 = s\<lparr> processedTriggersRef := insert (time trigger) (processedTriggersRef s),
                       firedLog := firedLog s @ [trigger] \<rparr>;
             r = rnd (randomCalls s1);
             s2 = s1\<lparr> randomCalls := randomCalls s1 + 1 \<rparr>
         in if r < emphasisProbability preset then
              (let gestureType = getGestureForTrigger (rnd (randomCalls s2)) (ttype trigger);
                   s3 = s2\<lparr> randomCalls := randomCalls s2 + 1 \<rparr>;
                   intens = (if ttype trigger = exclaim then exclamationIntensity preset else 1.0)
               in triggerLoop rnd preset active now pbTime rest
                    (queueGesture active gestureType intens now s3))
            else triggerLoop rnd preset active now pbTime rest s2)
      else triggerLoop rnd preset active now pbTime rest s)"

definition triggerEffect :: "(nat \<Rightarrow> real) \<Rightarrow> AnimationPreset \<Rightarrow> real \<Rightarrow> bool \<Rightarrow> real \<Rightarrow> GestureTrigger list \<Rightarrow> AnimState \<Rightarrow> AnimState" where
  "triggerEffect rnd preset now playing pbTime triggers s =
     (if \<not> playing \<or> length triggers = 0 then s
      else triggerLoop rnd preset (activeGesture s) now pbTime triggers s)"

text \<open>
  \<open>getCurrentGestureRotations\<close>: \<open>Inr None\<close> is the result \<open>null\<close>, \<open>Inl TypeError\<close> the
  exception of \<open>getGestureRotations\<close> on a definition without keyframes.
\<close>

datatype error = TypeError

definition scaleRotation :: "real \<Rightarrow> Rotation \<Rightarrow> Rotation" where
  "scaleRotation k rotation =
     \<lparr> rx = (case rx rotation of Some v \<Rightarrow> Some (v * k) | None \<Rightarrow> None),
       ry = (case ry rotation of Some v \<Rightarrow> Some (v * k) | None \<Rightarrow> None),
       rz = (case rz rotation of Some v \<Rightarrow> Some (v * k) | None \<Rightarrow> None) \<rparr>"

definition getCurrentGestureRotations :: "AnimState \<Rightarrow> error + (string \<times> Rotation) list option" where
  "getCurrentGestureRotations s =
     (case activeGesture s of
        None \<Rightarrow> Inr None
      | Some g \<Rightarrow>
          (case getGestureRotations (GESTURE_LIBRARY (gtype g)) (gestureProgress s) of
             None \<Rightarrow> Inl TypeError
           | Some rots \<Rightarrow>
               if intensity g \<noteq> 1.0
               then Inr (Some (map (\<lambda>(b, rotation). (b, scaleRotation (intensity g) rotation)) rots))
               else Inr (Some rots)))"

subsection \<open>The engine of one avatar\<close>

text \<open>
  \<open>App\<close> feeds \<open>isPlaying\<close>, \<open>amplitude\<close>, \<open>playbackTime\<close> and \<open>gestureTriggers\<close> of the lip-sync
  hook to the animation hook. Stopping playback is \<open>stopAudio\<close> followed by the render in
  which the effect on \<open>[isPlaying, amplitude]\<close> runs with the new values; the trigger
  effect returns at once, \<open>isPlaying\<close> being false.
\<close>

record Engine =
  lipSync :: LipSync
  anim :: AnimState

definition freshEngine :: Engine where
  "freshEngine = \<lparr> lipSync = initialLipSync, anim = initialAnimState \<rparr>"

definition stopPlayback :: "Engine \<Rightarrow> Engine" where
  "stopPlayback e =
     (let l = stopAudio (lipSync e);
          a = stateEffect (isPlaying l) (amplitude l) (anim e)
      in \<lparr> lipSync = l, anim = a \<rparr>)"

text \<open>Starting playback: \<open>playAudio\<close>, then the render with \<open>isPlaying\<close> true.\<close>

definition startPlayback :: "VisemeCue list option \<Rightarrow> GestureTrigger list \<Rightarrow> real \<Rightarrow> Engine \<Rightarrow> Engine" where
  "startPlayback cues triggers ctxTime e =
     (let l = playAudio cues triggers ctxTime (lipSync e);
          a = stateEffect (isPlaying l) (amplitude l) (anim e)
      in \<lparr> lipSync = l, anim = a \<rparr>)"

section \<open>Well-formedness conditions and loop invariants\<close>

text \<open>
  The invariant of a sequence of mouth events: no event ends before it starts, and each
  event ends no later than the next one starts.
\<close>

definition orderedCues :: "VisemeCue list \<Rightarrow> bool" where
  "orderedCues cues =
     (list_all (\<lambda>c. startTime c \<le> endTime c) cues
      \<and> successively (\<lambda>a b. endTime a \<le> startTime b) cues)"

text \<open>
  One utterance, seen from the animation hook: a sequence of renders with \<open>isPlaying\<close>
  true, each with its amplitude, its playback time and its clock value, in which the
  effect on \<open>[isPlaying, amplitude]\<close> and the trigger effect run. The playback times are
  arbitrary, so a seek backwards or forwards is one more render. \<open>firedDuring\<close> is what
  such a sequence adds to the log of fired triggers, \<open>inWindow\<close> the window test of the
  trigger effect.
\<close>

definition playingTick :: "(nat \<Rightarrow> real) \<Rightarrow> AnimationPreset \<Rightarrow> GestureTrigger list \<Rightarrow> real \<times> real \<times> real \<Rightarrow> AnimState \<Rightarrow> AnimState" where
  "playingTick rnd preset triggers tick s =
     (case tick of (amp, pbTime, now) \<Rightarrow>
        triggerEffect rnd preset now True pbTime triggers (stateEffect True amp s))"

fun playingTicks :: "(nat \<Rightarrow> real) \<Rightarrow> AnimationPreset \<Rightarrow> GestureTrigger list \<Rightarrow> (real \<times> real \<times> real) list \<Rightarrow> AnimState \<Rightarrow> AnimState" where
  "playingTicks rnd preset triggers [] s = s"
| "playingTicks rnd preset triggers (tick # ticks) s =
     playingTicks rnd preset triggers ticks (playingTick rnd preset triggers tick s)"

definition firedDuring :: "(nat \<Rightarrow> real) \<Rightarrow> AnimationPreset \<Rightarrow> GestureTrigger list \<Rightarrow> (real \<times> real \<times> real) list \<Rightarrow> AnimState \<Rightarrow> GestureTrigger list" where
  "firedDuring rnd preset triggers ticks s =
     drop (length (firedLog s)) (firedLog (playingTicks rnd preset triggers ticks s))"

definition inWindow :: "real \<Rightarrow> real \<Rightarrow> bool" where
  "inWindow triggerTime pbTime = (pbTime \<ge> triggerTime - 0.05 \<and> pbTime \<le> triggerTime + 0.2)"

text \<open>
  The entries of an alignment that the first loop of the builder keeps, in order, each
  with its character and its times; and the condition that these entries follow each
  other in time from \<open>t\<close> on: each starts no earlier than \<open>t\<close> and than the end of the
  entry before it.
\<close>

definition validEntry :: "AlignmentData \<Rightarrow> nat \<Rightarrow> (string \<times> real \<times> real) option" where
  "validEntry alignment i =
     (case (at_index (character_start_times_seconds alignment) i,
            at_index (character_end_times_seconds alignment) i) of
        (Some st, Some en) \<Rightarrow> if st < en then Some (characters alignment ! i, st, en) else None
      | _ \<Rightarrow> None)"

definition validEntries :: "AlignmentData \<Rightarrow> (string \<times> real \<times> real) list" where
  "validEntries alignment =
     List.map_filter (validEntry alignment) [0..<length (characters alignment)]"

fun orderedFrom :: "real \<Rightarrow> (string \<times> real \<times> real) list \<Rightarrow> bool" where
  "orderedFrom t [] = True"
| "orderedFrom t ((c, st, en) # rest) = (t \<le> st \<and> orderedFrom en rest)"

definition cueOf :: "string \<times> real \<times> real \<Rightarrow> VisemeCue" where
  "cueOf entry =
     (case entry of (c, st, en) \<Rightarrow> \<lparr> viseme = charToViseme c, startTime = st, endTime = en \<rparr>)"

text \<open>
  A sequence of events of positive duration in which no event starts before the one
  before it has ended.
\<close>

definition wellTimed :: "VisemeCue list \<Rightarrow> bool" where
  "wellTimed cues =
     (list_all (\<lambda>c. startTime c < endTime c) cues
      \<and> successively (\<lambda>a b. endTime a \<le> startTime b) cues)"

text \<open>
  A sequence of events in which every event has a positive duration and each event
  starts no earlier than the one before it ends and at most \<open>d\<close> later. With \<open>d = 0\<close>
  consecutive events share their boundary.
\<close>

definition gapsAtMost :: "real \<Rightarrow> VisemeCue list \<Rightarrow> bool" where
  "gapsAtMost d cues =
     (list_all (\<lambda>c. startTime c < endTime c) cues
      \<and> successively (\<lambda>a b. endTime a \<le> startTime b \<and> startTime b \<le> endTime a + d) cues)"

text \<open>
  The mapping of characters to categories in the words of the specification: the
  digraph table is consulted first on the character and its successor, a match gives
  one category for the two positions; otherwise the single-character table, otherwise
  silence.
\<close>

fun spec_categories :: "string list \<Rightarrow> Viseme list" where
  "spec_categories [] = []"
| "spec_categories [c] = [charToViseme c]"
| "spec_categories (c # d # rest) =
     (case DIGRAPH_TO_VISEME (toLowerCase c @ toLowerCase d) of
        Some v \<Rightarrow> v # spec_categories rest
      | None \<Rightarrow> charToViseme c # spec_categories (d # rest))"

text \<open>Concrete inputs used below.\<close>

definition gapAlignment :: AlignmentData where
  "gapAlignment =
     \<lparr> characters = [''a'', ''b''],
       character_start_times_seconds = [0, 0.105],
       character_end_times_seconds = [0.1, 0.2] \<rparr>"

definition overlapAlignment :: AlignmentData where
  "overlapAlignment =
     \<lparr> characters = [''a'', ''b''],
       character_start_times_seconds = [0, 0.1],
       character_end_times_seconds = [0.2, 0.3] \<rparr>"

definition thAlignment :: AlignmentData where
  "thAlignment =
     \<lparr> characters = [''t'', ''h''],
       character_start_times_seconds = [0, 0.1],
       character_end_times_seconds = [0.1, 0.2] \<rparr>"

text \<open>
  An engine in the middle of an utterance: playback was started, a request for
  \<open>armFlailBoth\<close> made it the active gesture, and a later request for \<open>headNod\<close> was queued
  behind it.
\<close>

definition flailing :: AnimState where
  "flailing =
     queueGesture (activeGesture initialAnimState) (Some armFlailBoth) 1 0
       (stateEffect True 0 initialAnimState)"

definition flailingQueued :: AnimState where
  "flailingQueued = queueGesture (activeGesture flailing) (Some headNod) 1 10 flailing"

definition busyEngine :: Engine where
  "busyEngine = \<lparr> lipSync = playAudio None [] 0 initialLipSync, anim = flailingQueued \<rparr>"



text \<open>
  The gesture fields of \<open>CALM_FRIENDLY_PRESET\<close>, the preset the hook starts with, and two
  triggers 0.1 s apart, as an exclamation mark followed by a question mark gives them.
\<close>

definition calmGestures :: AnimationPreset where
  "calmGestures =
     \<lparr> emphasisProbability = 0.3, exclamationIntensity = 1.0,
       twitchFrequency = 0, twitchIntensity = 0 \<rparr>"

definition closeTriggers :: "GestureTrigger list" where
  "closeTriggers = [\<lparr> time = 2.0, ttype = exclaim \<rparr>, \<lparr> time = 2.1, ttype = question \<rparr>]"

section \<open>Jaw interpolation\<close>

lemma jaw_rotation_range: "0 \<le> VISEME_JAW_ROTATION v \<and> VISEME_JAW_ROTATION v \<le> 0.35"
  by (cases v) simp_all

lemma jaw_rotation_diff: "\<bar>VISEME_JAW_ROTATION n - VISEME_JAW_ROTATION c\<bar> \<le> 0.35"
  using jaw_rotation_range [of n] jaw_rotation_range [of c] by linarith

lemma jaw_hold:
  "p < 0.7 \<or> nxt = None \<Longrightarrow> jawRotationDefault cur nxt p = VISEME_JAW_ROTATION cur"
  by (auto simp: jawRotationDefault_def getInterpolatedJawRotation_def Let_def split: option.splits)

lemma jaw_blend:
  "0.7 \<le> p \<Longrightarrow> jawRotationDefault cur (Some n) p =
     VISEME_JAW_ROTATION cur
       + (VISEME_JAW_ROTATION n - VISEME_JAW_ROTATION cur) * (1 - (1 - (p - 0.7) / 0.3) ^ 2)"
  by (simp add: jawRotationDefault_def getInterpolatedJawRotation_def Let_def)

lemma jaw_at_threshold: "jawRotationDefault cur nxt 0.7 = VISEME_JAW_ROTATION cur"
  by (cases nxt) (simp_all add: jawRotationDefault_def getInterpolatedJawRotation_def Let_def)

lemma eased_bound:
  fixes e :: real
  assumes "0 \<le> e" "e \<le> 0.3"
  shows "0 \<le> 1 - (1 - e / 0.3) ^ 2" "1 - (1 - e / 0.3) ^ 2 \<le> (20 / 3) * e"
proof -
  have eq: "1 - (1 - e / 0.3) ^ 2 = (e / 0.3) * (2 - e / 0.3)"
    by (simp add: power2_eq_square algebra_simps)
  have a: "0 \<le> e / 0.3" using assms by simp
  have b: "e / 0.3 \<le> 1" using assms by simp
  show "0 \<le> 1 - (1 - e / 0.3) ^ 2" unfolding eq using a b by simp
  have "(e / 0.3) * (2 - e / 0.3) \<le> (e / 0.3) * 2"
    using a by (intro mult_left_mono) simp_all
  then show "1 - (1 - e / 0.3) ^ 2 \<le> (20 / 3) * e" unfolding eq by simp
qed

lemma jaw_jump_bound:
  assumes "0 \<le> e" "e \<le> 0.3"
  shows "\<bar>jawRotationDefault cur nxt (0.7 + e) - jawRotationDefault cur nxt (0.7 - e)\<bar> \<le> (7 / 3) * e"
proof (cases nxt)
  case None
  then show ?thesis using assms by (simp add: jaw_hold)
next
  case (Some n)
  show ?thesis
  proof (cases "e = 0")
    case True
    then show ?thesis by simp
  next
    case False
    with assms have pos: "0 < e" by simp
    have lo: "jawRotationDefault cur nxt (0.7 - e) = VISEME_JAW_ROTATION cur"
      using pos by (intro jaw_hold) simp
    have hi: "jawRotationDefault cur nxt (0.7 + e) =
        VISEME_JAW_ROTATION cur
          + (VISEME_JAW_ROTATION n - VISEME_JAW_ROTATION cur) * (1 - (1 - e / 0.3) ^ 2)"
      using jaw_blend [of "0.7 + e" cur n] pos Some by simp
    have "\<bar>(VISEME_JAW_ROTATION n - VISEME_JAW_ROTATION cur) * (1 - (1 - e / 0.3) ^ 2)\<bar>
          = \<bar>VISEME_JAW_ROTATION n - VISEME_JAW_ROTATION cur\<bar> * (1 - (1 - e / 0.3) ^ 2)"
      using eased_bound(1) [OF assms] by (simp add: abs_mult)
    also have "\<dots> \<le> 0.35 * ((20 / 3) * e)"
      using jaw_rotation_diff [of n cur] eased_bound [OF assms]
      by (intro mult_mono) simp_all
    also have "\<dots> = (7 / 3) * e" by simp
    finally show ?thesis using lo hi by simp
  qed
qed

lemma jaw_no_jump:
  assumes "0 < d"
  shows "\<exists>eps>0. \<forall>e. 0 < e \<and> e < eps \<longrightarrow>
           \<bar>jawRotationDefault cur nxt (0.7 + e) - jawRotationDefault cur nxt (0.7 - e)\<bar> < d"
proof -
  define eps where "eps = min 0.3 (3 * d / 7)"
  have "0 < eps" using assms by (simp add: eps_def)
  moreover have "\<bar>jawRotationDefault cur nxt (0.7 + e) - jawRotationDefault cur nxt (0.7 - e)\<bar> < d"
    if "0 < e \<and> e < eps" for e
  proof -
    from that have "0 \<le> e" "e \<le> 0.3" "(7 / 3) * e < d" by (simp_all add: eps_def)
    with jaw_jump_bound [of e cur nxt] show ?thesis by linarith
  qed
  ultimately show ?thesis by blast
qed

text \<open>
  C7. Jaw-rotation interpolation: below the threshold 0.7, or without a next category,
  the table value of the current category is returned; from 0.7 on the result is
  \<open>current + (next - current) * (1 - (1 - (progress - 0.7) / 0.3)\<^sup>2)\<close>; at 0.7 the blend
  is the table value itself; the samples at \<open>0.7 - e\<close> and \<open>0.7 + e\<close> differ by at most
  \<open>7/3 * e\<close> for \<open>e\<close> up to 0.3, hence by less than any given bound once \<open>e\<close> is small.
\<close>

theorem jaw_interpolation_continuous:
  "(p < 0.7 \<or> nxt = None \<longrightarrow> jawRotationDefault cur nxt p = VISEME_JAW_ROTATION cur)
   \<and> (0.7 \<le> p \<longrightarrow> jawRotationDefault cur (Some n) p =
         VISEME_JAW_ROTATION cur
           + (VISEME_JAW_ROTATION n - VISEME_JAW_ROTATION cur) * (1 - (1 - (p - 0.7) / 0.3) ^ 2))
   \<and> jawRotationDefault cur nxt 0.7 = VISEME_JAW_ROTATION cur
   \<and> (0 \<le> e \<and> e \<le> 0.3 \<longrightarrow>
         \<bar>jawRotationDefault cur nxt (0.7 + e) - jawRotationDefault cur nxt (0.7 - e)\<bar> \<le> (7 / 3) * e)
   \<and> (0 < d \<longrightarrow> (\<exists>eps>0. \<forall>e. 0 < e \<and> e < eps \<longrightarrow>
         \<bar>jawRotationDefault cur nxt (0.7 + e) - jawRotationDefault cur nxt (0.7 - e)\<bar> < d))"
  using jaw_hold [of p nxt cur] jaw_blend [of p cur n] jaw_at_threshold [of cur nxt]
    jaw_jump_bound [of e cur nxt] jaw_no_jump [of d cur nxt]
  by blast

theorem jaw_interpolation_continuous_witness:
  "jawRotationDefault V_aa (Some V_sil) 0.5 = 0.35
   \<and> jawRotationDefault V_aa (Some V_sil) 0.85 = 0.0875
   \<and> jawRotationDefault V_aa (Some V_sil) 0.7 = 0.35
   \<and> \<bar>jawRotationDefault V_aa (Some V_sil) (0.7 + 0.03) - jawRotationDefault V_aa (Some V_sil) (0.7 - 0.03)\<bar> \<le> 0.07
   \<and> (\<exists>eps>0. \<forall>e. 0 < e \<and> e < eps \<longrightarrow>
         \<bar>jawRotationDefault V_aa (Some V_sil) (0.7 + e) - jawRotationDefault V_aa (Some V_sil) (0.7 - e)\<bar> < 0.001)"
proof -
  note t1 = jaw_interpolation_continuous [of "0.5" "Some V_sil" V_aa V_sil "0.03" "0.001"]
  note t2 = jaw_interpolation_continuous [of "0.85" "Some V_sil" V_aa V_sil "0.03" "0.001"]
  have a: "jawRotationDefault V_aa (Some V_sil) 0.5 = 0.35" using t1 by simp
  have b: "jawRotationDefault V_aa (Some V_sil) 0.85 = 0.0875" using t2 by (simp add: power2_eq_square)
  have c: "jawRotationDefault V_aa (Some V_sil) 0.7 = 0.35" using t1 by simp
  have d: "\<bar>jawRotationDefault V_aa (Some V_sil) (0.7 + 0.03) - jawRotationDefault V_aa (Some V_sil) (0.7 - 0.03)\<bar> \<le> 0.07"
    using t1 by simp
  have e: "\<exists>eps>0. \<forall>e. 0 < e \<and> e < eps \<longrightarrow>
         \<bar>jawRotationDefault V_aa (Some V_sil) (0.7 + e) - jawRotationDefault V_aa (Some V_sil) (0.7 - e)\<bar> < 0.001"
    using t1 by simp
  from a b c d e show ?thesis by blast
qed

section \<open>Amplitude fallback\<close>

lemma fallback_shape:
  "mouthShape (amplitudeFallback a s) =
     (if a < 15 then M_closed else if a < 35 then M_small
      else if a < 60 then M_medium else M_wide)"
  by (simp add: amplitudeFallback_def Let_def getMouthShapeFromAmplitude_def)

lemma fallback_openness:
  "mouthOpenness (amplitudeFallback a s) = min 1 (max 0 (a / 80))"
  by (simp add: amplitudeFallback_def Let_def)

lemma fallback_viseme:
  "currentViseme (amplitudeFallback a s) =
     (let openness = mouthOpenness (amplitudeFallback a s) in
      if openness < 0.1 then V_sil else if openness < 0.2 then V_SS
      else if openness < 0.35 then V_I else if openness < 0.5 then V_E
      else if openness < 0.7 then V_O else V_aa)"
  by (simp add: amplitudeFallback_def Let_def opennessToViseme_def)

lemma fallback_viseme_by_amplitude:
  assumes "0 \<le> a"
  shows "currentViseme (amplitudeFallback a s) =
           (if a < 8 then V_sil else if a < 16 then V_SS else if a < 28 then V_I
            else if a < 40 then V_E else if a < 56 then V_O else V_aa)"
  using assms by (simp add: amplitudeFallback_def Let_def opennessToViseme_def min_def max_def)

lemma fallback_jaw:
  "jawRotation (amplitudeFallback a s) = VISEME_JAW_ROTATION (currentViseme (amplitudeFallback a s))"
  by (simp add: amplitudeFallback_def Let_def)

lemma fallback_50:
  "mouthOpenness (amplitudeFallback 50 s) = 0.625
   \<and> currentViseme (amplitudeFallback 50 s) = V_O
   \<and> mouthShape (amplitudeFallback 50 s) = M_medium"
  by (simp add: amplitudeFallback_def Let_def opennessToViseme_def
      getMouthShapeFromAmplitude_def)

lemma analyzeAudio_fallback:
  assumes "analyserRef s" "audioContextRef s"
    and "visemeCuesRef s = None \<or> visemeCuesRef s = Some []"
    and "a = smoothedAmplitudeRef s * 0.3 + (average / 255) * 100 * (1 - 0.3)"
  shows "mouthShape (analyzeAudio average ctxTime s) = mouthShape (amplitudeFallback a s)
    \<and> mouthOpenness (analyzeAudio average ctxTime s) = mouthOpenness (amplitudeFallback a s)
    \<and> currentViseme (analyzeAudio average ctxTime s) = currentViseme (amplitudeFallback a s)
    \<and> jawRotation (analyzeAudio average ctxTime s) = jawRotation (amplitudeFallback a s)"
  using assms
  by (auto simp: analyzeAudio_def Let_def SMOOTHING_FACTOR_def amplitudeFallback_def)

text \<open>
  C8. In amplitude-fallback mode, for every amplitude in [0,100]: the bucket is closed
  below 15, small below 35, medium below 60 and wide otherwise; the openness is the
  amplitude over 80 clamped to [0,1]; the category is sil, SS, I, E, O, aa by the
  openness thresholds 0.1, 0.2, 0.35, 0.5, 0.7; the jaw rotation is the table value of
  that category and depends on nothing else in the state; a tick of \<open>analyzeAudio\<close>
  without cues publishes exactly these values for the smoothed amplitude; and the
  amplitude 50 gives openness 0.625, category O and bucket medium.
\<close>

theorem amplitude_fallback_buckets:
  assumes "0 \<le> a" and "a \<le> 100"
  shows "mouthShape (amplitudeFallback a s) =
           (if a < 15 then M_closed else if a < 35 then M_small
            else if a < 60 then M_medium else M_wide)
    \<and> mouthOpenness (amplitudeFallback a s) = min 1 (max 0 (a / 80))
    \<and> currentViseme (amplitudeFallback a s) =
           (let openness = mouthOpenness (amplitudeFallback a s) in
            if openness < 0.1 then V_sil else if openness < 0.2 then V_SS
            else if openness < 0.35 then V_I else if openness < 0.5 then V_E
            else if openness < 0.7 then V_O else V_aa)
    \<and> jawRotation (amplitudeFallback a s) = VISEME_JAW_ROTATION (currentViseme (amplitudeFallback a s))
    \<and> jawRotation (amplitudeFallback a s) = jawRotation (amplitudeFallback a s')
    \<and> (analyserRef s \<and> audioContextRef s
         \<and> (visemeCuesRef s = None \<or> visemeCuesRef s = Some [])
         \<and> a = smoothedAmplitudeRef s * 0.3 + (average / 255) * 100 * (1 - 0.3)
        \<longrightarrow> mouthShape (analyzeAudio average ctxTime s) = mouthShape (amplitudeFallback a s)
          \<and> mouthOpenness (analyzeAudio average ctxTime s) = mouthOpenness (amplitudeFallback a s)
          \<and> currentViseme (analyzeAudio average ctxTime s) = currentViseme (amplitudeFallback a s)
          \<and> jawRotation (analyzeAudio average ctxTime s) = jawRotation (amplitudeFallback a s))
    \<and> mouthOpenness (amplitudeFallback 50 s) = 0.625
    \<and> currentViseme (amplitudeFallback 50 s) = V_O
    \<and> mouthShape (amplitudeFallback 50 s) = M_medium"
proof -
  have "jawRotation (amplitudeFallback a s) = jawRotation (amplitudeFallback a s')"
    by (simp add: amplitudeFallback_def Let_def)
  with fallback_shape [of a s] fallback_openness [of a s] fallback_viseme [of a s]
    fallback_jaw [of a s] fallback_50 [of s] analyzeAudio_fallback [of s a average ctxTime]
  show ?thesis by blast
qed

theorem amplitude_fallback_buckets_witness:
  "(0::real) \<le> 20 \<and> (20::real) \<le> 100
   \<and> mouthShape (amplitudeFallback 20 initialLipSync) = M_small
   \<and> mouthOpenness (amplitudeFallback 20 initialLipSync) = 0.25
   \<and> currentViseme (amplitudeFallback 20 initialLipSync) = V_I
   \<and> jawRotation (amplitudeFallback 20 initialLipSync) = 0.15
   \<and> mouthShape (analyzeAudio 51 0 (playAudio None [] 0 (initialLipSync\<lparr> smoothedAmplitudeRef := 20 \<rparr>)))
       = M_small"
proof -
  define s where "s = playAudio None [] 0 (initialLipSync\<lparr> smoothedAmplitudeRef := 20 \<rparr>)"
  have h0: "(0::real) \<le> 20" and h1: "(20::real) \<le> 100" by simp_all
  note t = amplitude_fallback_buckets [OF h0 h1, of initialLipSync]
  have sh: "mouthShape (amplitudeFallback 20 initialLipSync) = M_small" using t by simp
  have o: "mouthOpenness (amplitudeFallback 20 initialLipSync) = 0.25" using t by simp
  have v: "currentViseme (amplitudeFallback 20 initialLipSync) = V_I" using t o by simp
  have j: "jawRotation (amplitudeFallback 20 initialLipSync) = 0.15" using t v by simp
  have pre: "analyserRef s \<and> audioContextRef s
         \<and> (visemeCuesRef s = None \<or> visemeCuesRef s = Some [])
         \<and> 20 = smoothedAmplitudeRef s * 0.3 + (51 / 255) * 100 * (1 - 0.3)"
    by (simp add: s_def playAudio_def initialLipSync_def)
  have "mouthShape (analyzeAudio 51 0 s) = mouthShape (amplitudeFallback 20 s)"
    using amplitude_fallback_buckets [OF h0 h1, of s _ 51 0] pre by blast
  moreover have "mouthShape (amplitudeFallback 20 s) = M_small"
    using amplitude_fallback_buckets [OF h0 h1, of s] by simp
  ultimately have a: "mouthShape (analyzeAudio 51 0 s) = M_small" by simp
  from sh o v j a show ?thesis unfolding s_def by simp
qed

section \<open>Sampling the timeline\<close>

lemma findCue_None_iff:
  "findCue cues t = None \<longleftrightarrow> (\<forall>c \<in> set cues. \<not> (startTime c \<le> t \<and> t < endTime c))"
  by (induction cues) (auto simp: Let_def)

lemma findCue_first:
  assumes "i < length cues" "startTime (cues ! i) \<le> t" "t < endTime (cues ! i)"
    and "\<forall>j<i. \<not> (startTime (cues ! j) \<le> t \<and> t < endTime (cues ! j))"
  shows "findCue cues t =
           Some \<lparr> atViseme = viseme (cues ! i),
                  atProgress = (t - startTime (cues ! i)) / (endTime (cues ! i) - startTime (cues ! i)),
                  atNextViseme = (if Suc i < length cues then Some (viseme (cues ! Suc i)) else None) \<rparr>"
  using assms
proof (induction cues arbitrary: i)
  case Nil
  then show ?case by simp
next
  case (Cons c cues)
  show ?case
  proof (cases i)
    case 0
    with Cons.prems show ?thesis by (cases cues) (simp_all add: Let_def)
  next
    case (Suc k)
    with Cons.prems(4) have no: "\<not> (startTime c \<le> t \<and> t < endTime c)" by auto
    have "\<forall>j<k. \<not> (startTime (cues ! j) \<le> t \<and> t < endTime (cues ! j))"
      using Cons.prems(4) Suc by auto
    from no have step: "findCue (c # cues) t = findCue cues t" by auto
    from Cons.IH [of k] Cons.prems(1-3) Suc \<open>\<forall>j<k. _\<close>
    have "findCue cues t =
           Some \<lparr> atViseme = viseme (cues ! k),
                  atProgress = (t - startTime (cues ! k)) / (endTime (cues ! k) - startTime (cues ! k)),
                  atNextViseme = (if Suc k < length cues then Some (viseme (cues ! Suc k)) else None) \<rparr>"
      by simp
    with step Suc show ?thesis by simp
  qed
qed

lemma orderedCues_Cons:
  "orderedCues (c # cues) \<Longrightarrow> orderedCues cues"
  by (cases cues) (simp_all add: orderedCues_def)

lemma orderedCues_after_hd:
  "orderedCues (c # cues) \<Longrightarrow> d \<in> set cues \<Longrightarrow> endTime c \<le> startTime d"
proof (induction cues arbitrary: c)
  case Nil
  then show ?case by simp
next
  case (Cons a cues)
  from Cons.prems(1) have ca: "endTime c \<le> startTime a" "startTime a \<le> endTime a"
    and rest: "orderedCues (a # cues)"
    by (simp_all add: orderedCues_def)
  show ?case
  proof (cases "d = a")
    case True
    with ca show ?thesis by simp
  next
    case False
    with Cons.prems(2) have "d \<in> set cues" by simp
    from Cons.IH [OF rest this] ca show ?thesis by linarith
  qed
qed

lemma orderedCues_nth:
  "orderedCues cues \<Longrightarrow> i < j \<Longrightarrow> j < length cues \<Longrightarrow> endTime (cues ! i) \<le> startTime (cues ! j)"
proof (induction cues arbitrary: i j)
  case Nil
  then show ?case by simp
next
  case (Cons c cues)
  show ?case
  proof (cases i)
    case 0
    with Cons.prems have "cues ! (j - 1) \<in> set cues" by (cases j) auto
    from orderedCues_after_hd [OF Cons.prems(1) this] 0 Cons.prems(2) show ?thesis
      by (cases j) simp_all
  next
    case (Suc k)
    with Cons.prems obtain l where j: "j = Suc l" "k < l" "l < length cues" by (cases j) auto
    from Cons.IH [OF orderedCues_Cons [OF Cons.prems(1)] j(2,3)] Suc j show ?thesis by simp
  qed
qed

lemma orderedCues_start_le_end:
  "orderedCues cues \<Longrightarrow> i < length cues \<Longrightarrow> startTime (cues ! i) \<le> endTime (cues ! i)"
  by (simp add: orderedCues_def list_all_length)

lemma sample_past_end:
  assumes "orderedCues cues" "cues \<noteq> []" "endTime (last cues) \<le> t"
  shows "getVisemeAtTime cues t = \<lparr> atViseme = V_sil, atProgress = 1, atNextViseme = None \<rparr>"
proof -
  have "\<not> (startTime c \<le> t \<and> t < endTime c)" if "c \<in> set cues" for c
  proof -
    from that obtain i where i: "i < length cues" "c = cues ! i" by (auto simp: in_set_conv_nth)
    have "endTime c \<le> endTime (last cues)"
    proof (cases "i = length cues - 1")
      case True
      with i assms(2) show ?thesis by (simp add: last_conv_nth)
    next
      case False
      with i have "i < length cues - 1" "length cues - 1 < length cues" by simp_all
      from orderedCues_nth [OF assms(1) this]
        orderedCues_start_le_end [OF assms(1) this(2)] i assms(2)
      show ?thesis by (simp add: last_conv_nth)
    qed
    with assms(3) show ?thesis by simp
  qed
  then have "findCue cues t = None" by (simp add: findCue_None_iff)
  with assms(2,3) show ?thesis by (simp add: getVisemeAtTime_def)
qed

lemma sample_before_start:
  assumes "orderedCues cues" "cues \<noteq> []" "t < startTime (hd cues)"
  shows "getVisemeAtTime cues t =
           \<lparr> atViseme = V_sil, atProgress = 1, atNextViseme = Some (viseme (hd cues)) \<rparr>"
proof -
  have le: "startTime (hd cues) \<le> startTime c \<and> startTime (hd cues) \<le> endTime c" if "c \<in> set cues" for c
  proof -
    from that obtain i where i: "i < length cues" "c = cues ! i" by (auto simp: in_set_conv_nth)
    show ?thesis
    proof (cases i)
      case 0
      with i assms(2) orderedCues_start_le_end [OF assms(1) i(1)] show ?thesis
        by (simp add: hd_conv_nth)
    next
      case (Suc k)
      with i have "0 < i" by simp
      from orderedCues_nth [OF assms(1) this i(1)] orderedCues_start_le_end [OF assms(1) i(1)]
        orderedCues_start_le_end [OF assms(1), of 0] assms(2) i
      show ?thesis by (simp add: hd_conv_nth)
    qed
  qed
  then have "findCue cues t = None" using assms(3) by (fastforce simp: findCue_None_iff)
  moreover have "\<not> endTime (last cues) \<le> t" using le [of "last cues"] assms(2,3) by auto
  ultimately show ?thesis using assms(2) by (simp add: getVisemeAtTime_def)
qed

lemma sample_inside:
  assumes "orderedCues cues" "i < length cues" "startTime (cues ! i) \<le> t" "t < endTime (cues ! i)"
  shows "getVisemeAtTime cues t =
           \<lparr> atViseme = viseme (cues ! i),
             atProgress = (t - startTime (cues ! i)) / (endTime (cues ! i) - startTime (cues ! i)),
             atNextViseme = (if Suc i < length cues then Some (viseme (cues ! Suc i)) else None) \<rparr>"
proof -
  have "\<not> (startTime (cues ! j) \<le> t \<and> t < endTime (cues ! j))" if "j < i" for j
    using orderedCues_nth [OF assms(1) that assms(2)] assms(3) by simp
  then have "\<forall>j<i. \<not> (startTime (cues ! j) \<le> t \<and> t < endTime (cues ! j))" by blast
  from findCue_first [OF assms(2,3,4) this] assms(2) show ?thesis
    by (auto simp: getVisemeAtTime_def)
qed

lemma progress_range:
  fixes t a b :: real
  assumes "a \<le> t" "t < b"
  shows "0 \<le> (t - a) / (b - a) \<and> (t - a) / (b - a) < 1"
  using assms by simp

text \<open>
  C4. Sampling an event sequence (ordered in time and non-overlapping, as the timeline
  is) at a time \<open>t\<close>: at or beyond the end of the last event the result is silence with
  progress 1 and no next category; before the start of the first event it is silence
  with progress 1 and the first event's category as next category; and when an event
  has \<open>startTime \<le> t < endTime\<close> the result is that event's category with progress
  \<open>(t - start) / (end - start)\<close>, which lies in [0,1] (the guard of the source for an
  event of zero duration gives the same value, such an event containing no \<open>t\<close>), and
  the category of the following event, if any, as next category. The empty sequence
  gives silence with progress 1 and no next category.
\<close>

theorem sampling_cases:
  assumes "orderedCues cues"
  shows "getVisemeAtTime [] t = \<lparr> atViseme = V_sil, atProgress = 1, atNextViseme = None \<rparr>
    \<and> (cues \<noteq> [] \<and> endTime (last cues) \<le> t \<longrightarrow>
         getVisemeAtTime cues t = \<lparr> atViseme = V_sil, atProgress = 1, atNextViseme = None \<rparr>)
    \<and> (cues \<noteq> [] \<and> t < startTime (hd cues) \<longrightarrow>
         getVisemeAtTime cues t =
           \<lparr> atViseme = V_sil, atProgress = 1, atNextViseme = Some (viseme (hd cues)) \<rparr>)
    \<and> (\<forall>i<length cues. startTime (cues ! i) \<le> t \<and> t < endTime (cues ! i) \<longrightarrow>
         atViseme (getVisemeAtTime cues t) = viseme (cues ! i)
         \<and> atProgress (getVisemeAtTime cues t)
             = (t - startTime (cues ! i)) / (endTime (cues ! i) - startTime (cues ! i))
         \<and> atProgress (getVisemeAtTime cues t)
             = (if endTime (cues ! i) - startTime (cues ! i) > 0
                then (t - startTime (cues ! i)) / (endTime (cues ! i) - startTime (cues ! i)) else 1)
         \<and> 0 \<le> atProgress (getVisemeAtTime cues t) \<and> atProgress (getVisemeAtTime cues t) \<le> 1
         \<and> atNextViseme (getVisemeAtTime cues t)
             = (if Suc i < length cues then Some (viseme (cues ! Suc i)) else None))"
proof -
  have a: "getVisemeAtTime [] t = \<lparr> atViseme = V_sil, atProgress = 1, atNextViseme = None \<rparr>"
    by (simp add: getVisemeAtTime_def)
  have d: "atViseme (getVisemeAtTime cues t) = viseme (cues ! i)
         \<and> atProgress (getVisemeAtTime cues t)
             = (t - startTime (cues ! i)) / (endTime (cues ! i) - startTime (cues ! i))
         \<and> atProgress (getVisemeAtTime cues t)
             = (if endTime (cues ! i) - startTime (cues ! i) > 0
                then (t - startTime (cues ! i)) / (endTime (cues ! i) - startTime (cues ! i)) else 1)
         \<and> 0 \<le> atProgress (getVisemeAtTime cues t) \<and> atProgress (getVisemeAtTime cues t) \<le> 1
         \<and> atNextViseme (getVisemeAtTime cues t)
             = (if Suc i < length cues then Some (viseme (cues ! Suc i)) else None)"
    if "i < length cues" "startTime (cues ! i) \<le> t \<and> t < endTime (cues ! i)" for i
  proof -
    from that have st: "startTime (cues ! i) \<le> t" "t < endTime (cues ! i)" by simp_all
    from sample_inside [OF assms that(1) st] progress_range [OF st] st
    show ?thesis by simp
  qed
  from a sample_past_end [OF assms, of t] sample_before_start [OF assms, of t] d
  show ?thesis by blast
qed

theorem sampling_cases_witness:
  "orderedCues [\<lparr> viseme = V_sil, startTime = 0, endTime = 0.2 \<rparr>,
                \<lparr> viseme = V_I, startTime = 0.2, endTime = 0.4 \<rparr>,
                \<lparr> viseme = V_sil, startTime = 0.4, endTime = 0.5 \<rparr>]
   \<and> getVisemeAtTime [\<lparr> viseme = V_sil, startTime = 0, endTime = 0.2 \<rparr>,
                \<lparr> viseme = V_I, startTime = 0.2, endTime = 0.4 \<rparr>,
                \<lparr> viseme = V_sil, startTime = 0.4, endTime = 0.5 \<rparr>] 0.5
       = \<lparr> atViseme = V_sil, atProgress = 1, atNextViseme = None \<rparr>
   \<and> getVisemeAtTime [\<lparr> viseme = V_sil, startTime = 0, endTime = 0.2 \<rparr>,
                \<lparr> viseme = V_I, startTime = 0.2, endTime = 0.4 \<rparr>,
                \<lparr> viseme = V_sil, startTime = 0.4, endTime = 0.5 \<rparr>] (- 1)
       = \<lparr> atViseme = V_sil, atProgress = 1, atNextViseme = Some V_sil \<rparr>
   \<and> atViseme (getVisemeAtTime [\<lparr> viseme = V_sil, startTime = 0, endTime = 0.2 \<rparr>,
                \<lparr> viseme = V_I, startTime = 0.2, endTime = 0.4 \<rparr>,
                \<lparr> viseme = V_sil, startTime = 0.4, endTime = 0.5 \<rparr>] 0.3) = V_I
   \<and> atProgress (getVisemeAtTime [\<lparr> viseme = V_sil, startTime = 0, endTime = 0.2 \<rparr>,
                \<lparr> viseme = V_I, startTime = 0.2, endTime = 0.4 \<rparr>,
                \<lparr> viseme = V_sil, startTime = 0.4, endTime = 0.5 \<rparr>] 0.3) = 0.5"
proof -
  define cues where "cues = [\<lparr> viseme = V_sil, startTime = 0, endTime = 0.2 \<rparr>,
                \<lparr> viseme = V_I, startTime = 0.2, endTime = 0.4 \<rparr>,
                \<lparr> viseme = V_sil, startTime = 0.4, endTime = (0.5::real) \<rparr>]"
  have o: "orderedCues cues" by (simp add: cues_def orderedCues_def)
  have a: "getVisemeAtTime cues 0.5 = \<lparr> atViseme = V_sil, atProgress = 1, atNextViseme = None \<rparr>"
    using sampling_cases [OF o, of "0.5"] by (simp add: cues_def)
  have b: "getVisemeAtTime cues (- 1) = \<lparr> atViseme = V_sil, atProgress = 1, atNextViseme = Some V_sil \<rparr>"
    using sampling_cases [OF o, of "- 1"] by (simp add: cues_def)
  have "(1::nat) < length cues" "startTime (cues ! 1) \<le> 0.3 \<and> 0.3 < endTime (cues ! 1)"
    by (simp_all add: cues_def)
  with sampling_cases [OF o, of "0.3"]
  have "atViseme (getVisemeAtTime cues 0.3) = viseme (cues ! 1)
      \<and> atProgress (getVisemeAtTime cues 0.3)
          = (0.3 - startTime (cues ! 1)) / (endTime (cues ! 1) - startTime (cues ! 1))" by blast
  then have c: "atViseme (getVisemeAtTime cues 0.3) = V_I \<and> atProgress (getVisemeAtTime cues 0.3) = 0.5"
    by (simp add: cues_def)
  from o a b c show ?thesis unfolding cues_def by blast
qed

section \<open>Gesture requests\<close>

lemma queue_when_idle:
  assumes "activeGesture s = None"
  shows "queueGesture (activeGesture s) (Some ty) k now s =
           s\<lparr> activeGesture := Some \<lparr> gtype = ty, duration = def_duration (GESTURE_LIBRARY ty), intensity = k \<rparr>,
              gestureStartTimeRef := Some now, gestureProgress := 0 \<rparr>"
  using assms by (simp add: queueGesture_def Let_def)

lemma queue_preempt:
  assumes "activeGesture s = Some cur"
    and "priority (GESTURE_LIBRARY ty) > priority (GESTURE_LIBRARY (gtype cur))"
  shows "queueGesture (activeGesture s) (Some ty) k now s =
           s\<lparr> activeGesture := Some \<lparr> gtype = ty, duration = def_duration (GESTURE_LIBRARY ty), intensity = k \<rparr>,
              gestureStartTimeRef := Some now, gestureProgress := 0 \<rparr>"
  using assms by (simp add: queueGesture_def Let_def)

lemma queue_append:
  assumes "activeGesture s = Some cur"
    and "\<not> priority (GESTURE_LIBRARY ty) > priority (GESTURE_LIBRARY (gtype cur))"
  shows "queueGesture (activeGesture s) (Some ty) k now s =
           s\<lparr> gestureQueueRef := gestureQueueRef s
                @ [\<lparr> gtype = ty, duration = def_duration (GESTURE_LIBRARY ty), intensity = k \<rparr>] \<rparr>"
  using assms by (simp add: queueGesture_def Let_def)

text \<open>
  A request whose callback closed over the gesture that is active now (the first request
  after a render): with no gesture active it makes the requested gesture active, with
  progress 0 and the clock value as start time; with a gesture active it replaces that
  gesture exactly when the library priority of the requested type is strictly greater,
  and is appended to the queue otherwise.
\<close>

lemma request_with_current_closure:
  "(activeGesture s = None \<longrightarrow>
      queueGesture (activeGesture s) (Some ty) k now s =
        s\<lparr> activeGesture := Some \<lparr> gtype = ty, duration = def_duration (GESTURE_LIBRARY ty), intensity = k \<rparr>,
           gestureStartTimeRef := Some now, gestureProgress := 0 \<rparr>)
   \<and> (activeGesture s = Some cur
        \<and> priority (GESTURE_LIBRARY ty) > priority (GESTURE_LIBRARY (gtype cur)) \<longrightarrow>
      queueGesture (activeGesture s) (Some ty) k now s =
        s\<lparr> activeGesture := Some \<lparr> gtype = ty, duration = def_duration (GESTURE_LIBRARY ty), intensity = k \<rparr>,
           gestureStartTimeRef := Some now, gestureProgress := 0 \<rparr>)
   \<and> (activeGesture s = Some cur
        \<and> \<not> priority (GESTURE_LIBRARY ty) > priority (GESTURE_LIBRARY (gtype cur)) \<longrightarrow>
      queueGesture (activeGesture s) (Some ty) k now s =
        s\<lparr> gestureQueueRef := gestureQueueRef s
             @ [\<lparr> gtype = ty, duration = def_duration (GESTURE_LIBRARY ty), intensity = k \<rparr>] \<rparr>)"
  using queue_when_idle [of s ty k now] queue_preempt [of s cur ty k now]
    queue_append [of s cur ty k now]
  by blast


lemma request_with_current_closure_examples:
  "queueGesture (activeGesture initialAnimState) (Some headNod) 1 1000 initialAnimState
     = initialAnimState\<lparr> activeGesture := Some \<lparr> gtype = headNod, duration = 0.25, intensity = 1 \<rparr>,
          gestureStartTimeRef := Some 1000, gestureProgress := 0 \<rparr>
   \<and> activeGesture
        (queueGesture
           (activeGesture (initialAnimState\<lparr> activeGesture := Some \<lparr> gtype = headNod, duration = 0.25, intensity = 1 \<rparr>,
                                gestureStartTimeRef := Some 1000, gestureProgress := 0.6 \<rparr>))
           (Some armFlailBoth) 1 1100
           (initialAnimState\<lparr> activeGesture := Some \<lparr> gtype = headNod, duration = 0.25, intensity = 1 \<rparr>,
                                gestureStartTimeRef := Some 1000, gestureProgress := 0.6 \<rparr>))
       = Some \<lparr> gtype = armFlailBoth, duration = 0.5, intensity = 1 \<rparr>
   \<and> gestureProgress
        (queueGesture
           (activeGesture (initialAnimState\<lparr> activeGesture := Some \<lparr> gtype = headNod, duration = 0.25, intensity = 1 \<rparr>,
                                gestureStartTimeRef := Some 1000, gestureProgress := 0.6 \<rparr>))
           (Some armFlailBoth) 1 1100
           (initialAnimState\<lparr> activeGesture := Some \<lparr> gtype = headNod, duration = 0.25, intensity = 1 \<rparr>,
                                gestureStartTimeRef := Some 1000, gestureProgress := 0.6 \<rparr>))
       = 0
   \<and> queueGesture
        (activeGesture (initialAnimState\<lparr> activeGesture := Some \<lparr> gtype = armFlailBoth, duration = 0.5, intensity = 1 \<rparr>,
                                gestureStartTimeRef := Some 1000, gestureProgress := 0.6 \<rparr>))
        (Some headNod) 1 1100
        (initialAnimState\<lparr> activeGesture := Some \<lparr> gtype = armFlailBoth, duration = 0.5, intensity = 1 \<rparr>,
                                gestureStartTimeRef := Some 1000, gestureProgress := 0.6 \<rparr>)
       = initialAnimState\<lparr> activeGesture := Some \<lparr> gtype = armFlailBoth, duration = 0.5, intensity = 1 \<rparr>,
                                gestureStartTimeRef := Some 1000, gestureProgress := 0.6,
                                gestureQueueRef := [\<lparr> gtype = headNod, duration = 0.25, intensity = 1 \<rparr>] \<rparr>"
proof -
  define nod where "nod = \<lparr> gtype = headNod, duration = 0.25, intensity = 1 \<rparr>"
  define flail where "flail = \<lparr> gtype = armFlailBoth, duration = 0.5, intensity = 1 \<rparr>"
  define sn where "sn = initialAnimState\<lparr> activeGesture := Some nod,
                                gestureStartTimeRef := Some 1000, gestureProgress := 0.6 \<rparr>"
  define sf where "sf = initialAnimState\<lparr> activeGesture := Some flail,
                                gestureStartTimeRef := Some 1000, gestureProgress := 0.6 \<rparr>"
  have d: "def_duration (GESTURE_LIBRARY headNod) = 0.25" "def_duration (GESTURE_LIBRARY armFlailBoth) = 0.5"
    "priority (GESTURE_LIBRARY headNod) = 1" "priority (GESTURE_LIBRARY armFlailBoth) = 3"
    by (simp_all add: headNod_gesture_def armFlailBoth_gesture_def)
  have a: "queueGesture (activeGesture initialAnimState) (Some headNod) 1 1000 initialAnimState
     = initialAnimState\<lparr> activeGesture := Some nod,
          gestureStartTimeRef := Some 1000, gestureProgress := 0 \<rparr>"
    using request_with_current_closure [of initialAnimState headNod 1 1000] d
    by (simp add: initialAnimState_def nod_def)
  have pn: "activeGesture sn = Some nod
        \<and> priority (GESTURE_LIBRARY armFlailBoth) > priority (GESTURE_LIBRARY (gtype nod))"
    using d by (simp add: sn_def nod_def)
  have b: "queueGesture (activeGesture sn) (Some armFlailBoth) 1 1100 sn
      = sn\<lparr> activeGesture := Some flail, gestureStartTimeRef := Some 1100, gestureProgress := 0 \<rparr>"
    using request_with_current_closure [of sn armFlailBoth 1 1100 nod] pn d by (simp add: flail_def)
  have pf: "activeGesture sf = Some flail
        \<and> \<not> priority (GESTURE_LIBRARY headNod) > priority (GESTURE_LIBRARY (gtype flail))"
    using d by (simp add: sf_def flail_def)
  have c: "queueGesture (activeGesture sf) (Some headNod) 1 1100 sf
      = sf\<lparr> gestureQueueRef := gestureQueueRef sf @ [nod] \<rparr>"
    using request_with_current_closure [of sf headNod 1 1100 flail] pf d by (simp add: nod_def)
  have c': "sf\<lparr> gestureQueueRef := gestureQueueRef sf @ [nod] \<rparr>
      = initialAnimState\<lparr> activeGesture := Some flail,
                                gestureStartTimeRef := Some 1000, gestureProgress := 0.6,
                                gestureQueueRef := [nod] \<rparr>"
    by (simp add: sf_def initialAnimState_def)
  from a b c c' show ?thesis
    unfolding sn_def [symmetric] sf_def [symmetric] nod_def [symmetric] flail_def [symmetric]
    by simp
qed

lemma stale_requests:
  "queueGesture None (Some armFlailBoth) 1 1000 initialAnimState
     = initialAnimState\<lparr> activeGesture := Some \<lparr> gtype = armFlailBoth, duration = 0.5, intensity = 1 \<rparr>,
          gestureStartTimeRef := Some 1000, gestureProgress := 0 \<rparr>"
  "queueGesture None (Some headShake) 1 1000
       (queueGesture None (Some armFlailBoth) 1 1000 initialAnimState)
     = initialAnimState\<lparr> activeGesture := Some \<lparr> gtype = headShake, duration = 0.3, intensity = 1 \<rparr>,
          gestureStartTimeRef := Some 1000, gestureProgress := 0 \<rparr>"
  by (simp_all add: queueGesture_def Let_def initialAnimState_def armFlailBoth_gesture_def
      headShake_gesture_def)

lemma stale_effect:
  "activeGesture (triggerEffect (\<lambda>n. 0) calmGestures 1000 True 2.1 closeTriggers initialAnimState)
     = Some \<lparr> gtype = headShake, duration = 0.3, intensity = 1 \<rparr>"
  "gestureQueueRef (triggerEffect (\<lambda>n. 0) calmGestures 1000 True 2.1 closeTriggers initialAnimState) = []"
  "firedLog (triggerEffect (\<lambda>n. 0) calmGestures 1000 True 2.1 closeTriggers initialAnimState)
     = closeTriggers"
  by (simp_all add: triggerEffect_def closeTriggers_def calmGestures_def triggerLoop.simps Let_def
      initialAnimState_def getGestureForTrigger_def gestureMap_def queueGesture_def
      armFlailBoth_gesture_def headShake_gesture_def)

text \<open>
  C5 does not hold of the code where two requests are made in one run of the trigger
  effect: both calls of \<open>queueGesture\<close> read the \<open>activeGesture\<close> of the same render. With
  no gesture active at that render, the triggers of \<open>closeTriggers\<close> both fire at playback
  time 2.1 and both pass the random test (\<open>Math.random()\<close> returning 0): the first requests
  \<open>armFlailBoth\<close> (priority 3), which becomes active; the second requests \<open>headShake\<close>
  (priority 1), which sees no active gesture, replaces \<open>armFlailBoth\<close> and is not queued.
  The queue stays empty and \<open>armFlailBoth\<close> is lost.
\<close>

theorem stale_request_replaces_active_gesture:
  "queueGesture None (Some armFlailBoth) 1 1000 initialAnimState
     = initialAnimState\<lparr> activeGesture := Some \<lparr> gtype = armFlailBoth, duration = 0.5, intensity = 1 \<rparr>,
          gestureStartTimeRef := Some 1000, gestureProgress := 0 \<rparr>
   \<and> queueGesture None (Some headShake) 1 1000
       (queueGesture None (Some armFlailBoth) 1 1000 initialAnimState)
     = initialAnimState\<lparr> activeGesture := Some \<lparr> gtype = headShake, duration = 0.3, intensity = 1 \<rparr>,
          gestureStartTimeRef := Some 1000, gestureProgress := 0 \<rparr>
   \<and> priority (GESTURE_LIBRARY headShake) = 1
   \<and> priority (GESTURE_LIBRARY armFlailBoth) = 3
   \<and> firedLog (triggerEffect (\<lambda>n. 0) calmGestures 1000 True 2.1 closeTriggers initialAnimState)
       = closeTriggers
   \<and> activeGesture (triggerEffect (\<lambda>n. 0) calmGestures 1000 True 2.1 closeTriggers initialAnimState)
       = Some \<lparr> gtype = headShake, duration = 0.3, intensity = 1 \<rparr>
   \<and> gestureQueueRef (triggerEffect (\<lambda>n. 0) calmGestures 1000 True 2.1 closeTriggers initialAnimState)
       = []"
  using stale_requests stale_effect
  by (simp add: headShake_gesture_def armFlailBoth_gesture_def)

theorem stale_request_replaces_active_gesture_witness:
  "gestureQueueRef (triggerEffect (\<lambda>n. 0) calmGestures 1000 True 2.1 closeTriggers initialAnimState)
     = []
   \<and> activeGesture (triggerEffect (\<lambda>n. 0) calmGestures 1000 True 2.1 closeTriggers initialAnimState)
     \<noteq> Some \<lparr> gtype = armFlailBoth, duration = 0.5, intensity = 1 \<rparr>"
  using stale_request_replaces_active_gesture by simp

section \<open>Rotation sampling\<close>




lemma distinct_setOf: "distinct seen \<Longrightarrow> distinct (setOf bs seen)"
  by (induction bs seen rule: setOf.induct) auto


lemma interpolateBone_keys:
  "(b', r) \<in> set (interpolateBone kf1 kf2 t b) \<Longrightarrow> b' = b"
  by (auto simp: interpolateBone_def split: option.splits)

























section \<open>Trigger deduplication\<close>

lemma queueGesture_keeps:
  "processedTriggersRef (queueGesture a ty k now s) = processedTriggersRef s"
  "firedLog (queueGesture a ty k now s) = firedLog s"
  by (auto simp: queueGesture_def Let_def split: option.splits)

lemma triggerLoop_skip:
  "time tr \<in> processedTriggersRef s \<or> \<not> inWindow (time tr) t \<Longrightarrow>
     triggerLoop rnd preset a now t (tr # trs) s = triggerLoop rnd preset a now t trs s"
  by (auto simp: inWindow_def)

lemma triggerLoop_fire:
  assumes "time tr \<notin> processedTriggersRef s" "inWindow (time tr) t"
  shows "\<exists>s3. triggerLoop rnd preset a now t (tr # trs) s = triggerLoop rnd preset a now t trs s3
           \<and> processedTriggersRef s3 = insert (time tr) (processedTriggersRef s)
           \<and> firedLog s3 = firedLog s @ [tr]"
proof -
  define s2 where "s2 = s\<lparr> processedTriggersRef := insert (time tr) (processedTriggersRef s),
      firedLog := firedLog s @ [tr], randomCalls := randomCalls s + 1 \<rparr>"
  define s3 where "s3 = queueGesture a (getGestureForTrigger (rnd (randomCalls s2)) (ttype tr))
      (if ttype tr = exclaim then exclamationIntensity preset else 1.0) now
      (s2\<lparr> randomCalls := randomCalls s2 + 1 \<rparr>)"
  show ?thesis
  proof (cases "rnd (randomCalls s) < emphasisProbability preset")
    case True
    with assms have "triggerLoop rnd preset a now t (tr # trs) s = triggerLoop rnd preset a now t trs s3"
      by (simp add: inWindow_def Let_def s3_def s2_def)
    moreover have "processedTriggersRef s3 = insert (time tr) (processedTriggersRef s)"
      "firedLog s3 = firedLog s @ [tr]"
      by (simp_all add: s3_def queueGesture_keeps s2_def)
    ultimately show ?thesis by blast
  next
    case False
    with assms have "triggerLoop rnd preset a now t (tr # trs) s = triggerLoop rnd preset a now t trs s2"
      by (simp add: inWindow_def Let_def s2_def)
    moreover have "processedTriggersRef s2 = insert (time tr) (processedTriggersRef s)"
      "firedLog s2 = firedLog s @ [tr]"
      by (simp_all add: s2_def)
    ultimately show ?thesis by blast
  qed
qed

declare triggerLoop.simps(2) [simp del]

lemma triggerLoop_fired:
  "\<exists>F. firedLog (triggerLoop rnd preset a now t trs s) = firedLog s @ F
       \<and> processedTriggersRef (triggerLoop rnd preset a now t trs s)
           = processedTriggersRef s \<union> time ` set F
       \<and> distinct (map time F)
       \<and> (\<forall>tr \<in> set F. tr \<in> set trs \<and> time tr \<notin> processedTriggersRef s \<and> inWindow (time tr) t)"
proof (induction trs arbitrary: s)
  case Nil
  then show ?case by simp
next
  case (Cons tr trs)
  show ?case
  proof (cases "time tr \<in> processedTriggersRef s \<or> \<not> inWindow (time tr) t")
    case True
    then have "triggerLoop rnd preset a now t (tr # trs) s = triggerLoop rnd preset a now t trs s"
      by (rule triggerLoop_skip)
    with Cons.IH [of s] show ?thesis by auto
  next
    case False
    from False triggerLoop_fire [of tr s t rnd preset a now trs]
    obtain s3 where step: "triggerLoop rnd preset a now t (tr # trs) s
          = triggerLoop rnd preset a now t trs s3"
      and p3: "processedTriggersRef s3 = insert (time tr) (processedTriggersRef s)"
      and f3: "firedLog s3 = firedLog s @ [tr]"
      by blast
    from Cons.IH [of s3] obtain F where F:
      "firedLog (triggerLoop rnd preset a now t trs s3) = firedLog s3 @ F"
      "processedTriggersRef (triggerLoop rnd preset a now t trs s3) = processedTriggersRef s3 \<union> time ` set F"
      "distinct (map time F)"
      "\<forall>x \<in> set F. x \<in> set trs \<and> time x \<notin> processedTriggersRef s3 \<and> inWindow (time x) t"
      by blast
    have "firedLog (triggerLoop rnd preset a now t (tr # trs) s) = firedLog s @ (tr # F)"
      using step F(1) f3 by simp
    moreover have "processedTriggersRef (triggerLoop rnd preset a now t (tr # trs) s)
        = processedTriggersRef s \<union> time ` set (tr # F)"
      using step F(2) p3 by auto
    moreover have "distinct (map time (tr # F))"
      using F(3,4) p3 by auto
    moreover have "\<forall>x \<in> set (tr # F). x \<in> set (tr # trs) \<and> time x \<notin> processedTriggersRef s \<and> inWindow (time x) t"
      using F(4) p3 False by auto
    ultimately show ?thesis by blast
  qed
qed

lemma triggerLoop_consumes:
  "tr \<in> set trs \<Longrightarrow> inWindow (time tr) t
     \<Longrightarrow> time tr \<in> processedTriggersRef (triggerLoop rnd preset a now t trs s)"
proof (induction trs arbitrary: s)
  case Nil
  then show ?case by simp
next
  case (Cons x trs)
  from triggerLoop_fired [of rnd preset a now t trs]
  have mono: "processedTriggersRef s' \<subseteq> processedTriggersRef (triggerLoop rnd preset a now t trs s')" for s'
    by blast
  show ?case
  proof (cases "time x \<in> processedTriggersRef s \<or> \<not> inWindow (time x) t")
    case True
    then have step: "triggerLoop rnd preset a now t (x # trs) s = triggerLoop rnd preset a now t trs s"
      by (rule triggerLoop_skip)
    show ?thesis
    proof (cases "tr \<in> set trs")
      case True
      from Cons.IH [OF this Cons.prems(2)] step show ?thesis by simp
    next
      case False
      with Cons.prems have "tr = x" by simp
      with True Cons.prems(2) have "time tr \<in> processedTriggersRef s" by simp
      with mono [of s] step show ?thesis by auto
    qed
  next
    case False
    with triggerLoop_fire [of x s t rnd preset a now trs]
    obtain s3 where step: "triggerLoop rnd preset a now t (x # trs) s
          = triggerLoop rnd preset a now t trs s3"
      and p3: "processedTriggersRef s3 = insert (time x) (processedTriggersRef s)"
      by blast
    show ?thesis
    proof (cases "tr \<in> set trs")
      case True
      from Cons.IH [OF this Cons.prems(2)] step show ?thesis by simp
    next
      case False
      with Cons.prems have "tr = x" by simp
      with p3 mono [of s3] step show ?thesis by auto
    qed
  qed
qed

lemma playingTick_fired:
  "\<exists>F. firedLog (playingTick rnd preset trs tick s) = firedLog s @ F
       \<and> processedTriggersRef (playingTick rnd preset trs tick s)
           = processedTriggersRef s \<union> time ` set F
       \<and> distinct (map time F)
       \<and> (\<forall>tr \<in> set F. tr \<in> set trs \<and> time tr \<notin> processedTriggersRef s
             \<and> inWindow (time tr) (fst (snd tick)))"
proof -
  obtain amp t now where tick: "tick = (amp, t, now)" by (cases tick)
  define s0 where "s0 = stateEffect True amp s"
  have s0: "firedLog s0 = firedLog s" "processedTriggersRef s0 = processedTriggersRef s"
    by (simp_all add: s0_def stateEffect_def)
  show ?thesis
  proof (cases "trs = []")
    case True
    then have "playingTick rnd preset trs tick s = s0"
      by (simp add: playingTick_def tick triggerEffect_def s0_def)
    with s0 show ?thesis by simp
  next
    case False
    then have "playingTick rnd preset trs tick s
        = triggerLoop rnd preset (activeGesture s0) now t trs s0"
      by (simp add: playingTick_def tick triggerEffect_def s0_def)
    with triggerLoop_fired [of rnd preset "activeGesture s0" now t trs s0] s0 tick
    show ?thesis by simp
  qed
qed

lemma playingTick_consumes:
  assumes "tr \<in> set trs" "inWindow (time tr) (fst (snd tick))"
  shows "time tr \<in> processedTriggersRef (playingTick rnd preset trs tick s)"
proof -
  obtain amp t now where tick: "tick = (amp, t, now)" by (cases tick)
  from assms(1) have "trs \<noteq> []" by auto
  then have "playingTick rnd preset trs tick s
        = triggerLoop rnd preset (activeGesture (stateEffect True amp s)) now t trs (stateEffect True amp s)"
    by (simp add: playingTick_def tick triggerEffect_def)
  with triggerLoop_consumes [OF assms(1), of t] assms(2) tick show ?thesis by simp
qed

lemma playingTicks_append:
  "playingTicks rnd preset trs (xs @ ys) s
     = playingTicks rnd preset trs ys (playingTicks rnd preset trs xs s)"
  by (induction xs arbitrary: s) simp_all

lemma playingTicks_fired:
  "\<exists>F. firedLog (playingTicks rnd preset trs ticks s) = firedLog s @ F
       \<and> processedTriggersRef (playingTicks rnd preset trs ticks s)
           = processedTriggersRef s \<union> time ` set F
       \<and> distinct (map time F)
       \<and> (\<forall>tr \<in> set F. tr \<in> set trs \<and> time tr \<notin> processedTriggersRef s
             \<and> (\<exists>tick \<in> set ticks. inWindow (time tr) (fst (snd tick))))"
proof (induction ticks arbitrary: s)
  case Nil
  then show ?case by simp
next
  case (Cons tick ticks)
  define s1 where "s1 = playingTick rnd preset trs tick s"
  from playingTick_fired [of rnd preset trs tick s] obtain F1 where F1:
    "firedLog s1 = firedLog s @ F1"
    "processedTriggersRef s1 = processedTriggersRef s \<union> time ` set F1"
    "distinct (map time F1)"
    "\<forall>tr \<in> set F1. tr \<in> set trs \<and> time tr \<notin> processedTriggersRef s
             \<and> inWindow (time tr) (fst (snd tick))"
    unfolding s1_def by blast
  from Cons.IH [of s1] obtain F2 where F2:
    "firedLog (playingTicks rnd preset trs ticks s1) = firedLog s1 @ F2"
    "processedTriggersRef (playingTicks rnd preset trs ticks s1) = processedTriggersRef s1 \<union> time ` set F2"
    "distinct (map time F2)"
    "\<forall>tr \<in> set F2. tr \<in> set trs \<and> time tr \<notin> processedTriggersRef s1
             \<and> (\<exists>tick \<in> set ticks. inWindow (time tr) (fst (snd tick)))"
    by blast
  have "firedLog (playingTicks rnd preset trs (tick # ticks) s) = firedLog s @ (F1 @ F2)"
    using F1(1) F2(1) by (simp add: s1_def)
  moreover have "processedTriggersRef (playingTicks rnd preset trs (tick # ticks) s)
      = processedTriggersRef s \<union> time ` set (F1 @ F2)"
    using F1(2) F2(2) by (auto simp: s1_def)
  moreover have "distinct (map time (F1 @ F2))"
  proof -
    have "time x \<noteq> time y" if "x \<in> set F1" "y \<in> set F2" for x y
    proof
      assume "time x = time y"
      with that(1) have "time y \<in> time ` set F1" by (metis imageI)
      with F1(2) F2(4) that(2) show False by blast
    qed
    with F1(3) F2(3) show ?thesis by auto
  qed
  moreover have "\<forall>tr \<in> set (F1 @ F2). tr \<in> set trs \<and> time tr \<notin> processedTriggersRef s
             \<and> (\<exists>tk \<in> set (tick # ticks). inWindow (time tr) (fst (snd tk)))"
    using F1(2,4) F2(4) by auto
  ultimately show ?case by blast
qed

lemma firedDuring_log:
  "firedLog (playingTicks rnd preset trs ticks s) = firedLog s @ firedDuring rnd preset trs ticks s"
  using playingTicks_fired [of rnd preset trs ticks s] by (auto simp: firedDuring_def)

lemma firedDuring_props:
  "processedTriggersRef (playingTicks rnd preset trs ticks s)
       = processedTriggersRef s \<union> time ` set (firedDuring rnd preset trs ticks s)"
  "distinct (map time (firedDuring rnd preset trs ticks s))"
  "tr \<in> set (firedDuring rnd preset trs ticks s) \<Longrightarrow>
      tr \<in> set trs \<and> time tr \<notin> processedTriggersRef s
      \<and> (\<exists>tick \<in> set ticks. inWindow (time tr) (fst (snd tick)))"
proof -
  from playingTicks_fired [of rnd preset trs ticks s] obtain F where F:
    "firedLog (playingTicks rnd preset trs ticks s) = firedLog s @ F"
    "processedTriggersRef (playingTicks rnd preset trs ticks s) = processedTriggersRef s \<union> time ` set F"
    "distinct (map time F)"
    "\<forall>tr \<in> set F. tr \<in> set trs \<and> time tr \<notin> processedTriggersRef s
             \<and> (\<exists>tick \<in> set ticks. inWindow (time tr) (fst (snd tick)))"
    by blast
  from F(1) have eq: "firedDuring rnd preset trs ticks s = F" by (simp add: firedDuring_def)
  show "processedTriggersRef (playingTicks rnd preset trs ticks s)
       = processedTriggersRef s \<union> time ` set (firedDuring rnd preset trs ticks s)"
    using F(2) eq by simp
  show "distinct (map time (firedDuring rnd preset trs ticks s))" using F(3) eq by simp
  show "tr \<in> set (firedDuring rnd preset trs ticks s) \<Longrightarrow>
      tr \<in> set trs \<and> time tr \<notin> processedTriggersRef s
      \<and> (\<exists>tick \<in> set ticks. inWindow (time tr) (fst (snd tick)))"
    using F(4) eq by simp
qed

lemma firedDuring_append:
  "firedDuring rnd preset trs (xs @ ys) s
     = firedDuring rnd preset trs xs s
       @ firedDuring rnd preset trs ys (playingTicks rnd preset trs xs s)"
proof -
  have "firedLog (playingTicks rnd preset trs (xs @ ys) s)
      = firedLog s @ firedDuring rnd preset trs xs s
        @ firedDuring rnd preset trs ys (playingTicks rnd preset trs xs s)"
    by (simp add: playingTicks_append firedDuring_log)
  then show ?thesis by (simp add: firedDuring_def)
qed

lemma distinct_time_filter:
  "distinct (map time F) \<Longrightarrow> length (filter (\<lambda>x. time x = T) F) \<le> 1"
proof (induction F)
  case Nil
  then show ?case by simp
next
  case (Cons a F)
  then have "time a = T \<Longrightarrow> filter (\<lambda>x. time x = T) F = []"
    by (auto simp: filter_empty_conv image_iff)
  with Cons show ?case by auto
qed

lemma fires_once:
  assumes tr: "tr \<in> set trs" and fresh: "time tr \<notin> processedTriggersRef s"
    and pre: "\<forall>x \<in> set pre. \<not> inWindow (time tr) (fst (snd x))"
    and hit: "inWindow (time tr) (fst (snd tick))"
  shows "time tr \<notin> time ` set (firedDuring rnd preset trs pre s)"
    and "time tr \<notin> processedTriggersRef (playingTicks rnd preset trs pre s)"
    and "time tr \<in> time ` set (firedDuring rnd preset trs [tick] (playingTicks rnd preset trs pre s))"
    and "time tr \<in> processedTriggersRef (playingTicks rnd preset trs (pre @ [tick]) s)"
    and "time tr \<notin> time ` set (firedDuring rnd preset trs post (playingTicks rnd preset trs (pre @ [tick]) s))"
    and "length (filter (\<lambda>x. time x = time tr) (firedDuring rnd preset trs (pre @ tick # post) s)) = 1"
proof -
  let ?s1 = "playingTicks rnd preset trs pre s"
  let ?s2 = "playingTicks rnd preset trs (pre @ [tick]) s"
  show a: "time tr \<notin> time ` set (firedDuring rnd preset trs pre s)"
    using firedDuring_props(3) [of _ rnd preset trs pre s] pre by force
  show b: "time tr \<notin> processedTriggersRef ?s1"
    using a fresh firedDuring_props(1) [of rnd preset trs pre s] by simp
  have s2: "?s2 = playingTick rnd preset trs tick ?s1" by (simp add: playingTicks_append)
  show d: "time tr \<in> processedTriggersRef ?s2"
    unfolding s2 by (rule playingTick_consumes [OF tr hit])
  show c: "time tr \<in> time ` set (firedDuring rnd preset trs [tick] ?s1)"
    using d b firedDuring_props(1) [of rnd preset trs "[tick]" ?s1] by (simp add: playingTicks_append)
  show e: "time tr \<notin> time ` set (firedDuring rnd preset trs post ?s2)"
    using firedDuring_props(3) [of _ rnd preset trs post ?s2] d by force
  have split: "firedDuring rnd preset trs (pre @ tick # post) s
      = firedDuring rnd preset trs pre s @ firedDuring rnd preset trs [tick] ?s1
        @ firedDuring rnd preset trs post ?s2"
    using firedDuring_append [of rnd preset trs "pre @ [tick]" post s]
      firedDuring_append [of rnd preset trs pre "[tick]" s] by simp
  have z1: "filter (\<lambda>x. time x = time tr) (firedDuring rnd preset trs pre s) = []"
    using a by (auto simp: filter_empty_conv image_iff)
  have z2: "filter (\<lambda>x. time x = time tr) (firedDuring rnd preset trs post ?s2) = []"
    using e by (auto simp: filter_empty_conv image_iff)
  have "distinct (map time (firedDuring rnd preset trs [tick] ?s1))"
    by (rule firedDuring_props(2))
  then have "length (filter (\<lambda>x. time x = time tr) (firedDuring rnd preset trs [tick] ?s1)) \<le> 1"
    by (rule distinct_time_filter)
  moreover from c have "filter (\<lambda>x. time x = time tr) (firedDuring rnd preset trs [tick] ?s1) \<noteq> []"
    by (auto simp: filter_empty_conv)
  ultimately have "length (filter (\<lambda>x. time x = time tr) (firedDuring rnd preset trs [tick] ?s1)) = 1"
    by (cases "filter (\<lambda>x. time x = time tr) (firedDuring rnd preset trs [tick] ?s1)") auto
  with z1 z2 split
  show "length (filter (\<lambda>x. time x = time tr) (firedDuring rnd preset trs (pre @ tick # post) s)) = 1"
    by simp
qed


lemma not_playing_no_fire: "triggerEffect rnd preset now False t trs s = s"
  by (simp add: triggerEffect_def)

lemma stop_clears_processed: "processedTriggersRef (stateEffect False amp s) = {}"
  by (simp add: stateEffect_def)

text \<open>
  C6. During one utterance (renders with \<open>isPlaying\<close> true, at arbitrary playback
  times) the triggers that fire have pairwise distinct trigger times, so no trigger
  fires twice. A trigger of the list whose time is not yet consumed fires at the first
  render whose playback time lies in \<open>[time - 0.05, time + 0.2]\<close> and not before; its time
  is then in the set of consumed times; and in the rest of the utterance no trigger
  with that time fires again, whatever the later playback times are, so that exactly
  one firing carries that time. A trigger fires only at a render whose playback time is
  in its window; nothing fires while \<open>isPlaying\<close> is false, and the consumed set is
  emptied when playback ends. (A trigger is consumed by its time: of two triggers with
  the same time only the first in the list fires.)
\<close>

theorem trigger_fires_once:
  assumes "tr \<in> set triggers" and "time tr \<notin> processedTriggersRef s"
    and "\<forall>x \<in> set pre. \<not> inWindow (time tr) (fst (snd x))"
    and "inWindow (time tr) (fst (snd tick))"
  shows "distinct (map time (firedDuring rnd preset triggers (pre @ tick # post) s))
    \<and> distinct (firedDuring rnd preset triggers (pre @ tick # post) s)
    \<and> time tr \<notin> time ` set (firedDuring rnd preset triggers pre s)
    \<and> time tr \<in> time ` set (firedDuring rnd preset triggers [tick]
                               (playingTicks rnd preset triggers pre s))
    \<and> time tr \<in> processedTriggersRef (playingTicks rnd preset triggers (pre @ [tick]) s)
    \<and> time tr \<notin> time ` set (firedDuring rnd preset triggers post
                               (playingTicks rnd preset triggers (pre @ [tick]) s))
    \<and> length (filter (\<lambda>x. time x = time tr)
                (firedDuring rnd preset triggers (pre @ tick # post) s)) = 1
    \<and> (\<forall>x \<in> set (firedDuring rnd preset triggers (pre @ tick # post) s).
          x \<in> set triggers
          \<and> (\<exists>tk \<in> set (pre @ tick # post). inWindow (time x) (fst (snd tk))))
    \<and> triggerEffect rnd preset now False t triggers s = s
    \<and> processedTriggersRef (stateEffect False amp s) = {}"
proof -
  have d: "distinct (map time (firedDuring rnd preset triggers (pre @ tick # post) s))"
    by (rule firedDuring_props(2))
  then have d': "distinct (firedDuring rnd preset triggers (pre @ tick # post) s)"
    by (simp add: distinct_map)
  have w: "\<forall>x \<in> set (firedDuring rnd preset triggers (pre @ tick # post) s).
          x \<in> set triggers
          \<and> (\<exists>tk \<in> set (pre @ tick # post). inWindow (time x) (fst (snd tk)))"
    using firedDuring_props(3) [of _ rnd preset triggers "pre @ tick # post" s] by blast
  note f = fires_once [OF assms]
  from d d' w f(1) [of rnd preset] f(3) [of rnd preset] f(4) [of rnd preset]
    f(5) [of rnd preset post] f(6) [of rnd preset post]
    not_playing_no_fire [of rnd preset now t triggers s] stop_clears_processed [of amp s]
  show ?thesis by blast
qed

theorem trigger_fires_once_witness:
  "\<lparr> time = 2.0, ttype = exclaim \<rparr> \<in> set [\<lparr> time = 2.0, ttype = exclaim \<rparr>]
   \<and> time \<lparr> time = 2.0, ttype = exclaim \<rparr> \<notin> processedTriggersRef initialAnimState
   \<and> \<not> inWindow (time \<lparr> time = 2.0, ttype = exclaim \<rparr>) (fst (snd (10::real, 1.0::real, 0::real)))
   \<and> inWindow (time \<lparr> time = 2.0, ttype = exclaim \<rparr>) (fst (snd (10::real, 1.96::real, 0::real)))
   \<and> length (filter (\<lambda>x. time x = 2.0)
        (firedDuring (\<lambda>n. 1) \<lparr> emphasisProbability = 0.3, exclamationIntensity = 1.0,
                                twitchFrequency = 0, twitchIntensity = 0 \<rparr>
           [\<lparr> time = 2.0, ttype = exclaim \<rparr>]
           ([(10, 1.0, 0)] @ (10, 1.96, 0) # [(10, 2.1, 0), (10, 3.0, 0), (10, 2.0, 0)])
           initialAnimState)) = 1
   \<and> 2.0 \<notin> time ` set
        (firedDuring (\<lambda>n. 1) \<lparr> emphasisProbability = 0.3, exclamationIntensity = 1.0,
                                twitchFrequency = 0, twitchIntensity = 0 \<rparr>
           [\<lparr> time = 2.0, ttype = exclaim \<rparr>]
           [(10, 2.1, 0), (10, 3.0, 0), (10, 2.0, 0)]
           (playingTicks (\<lambda>n. 1) \<lparr> emphasisProbability = 0.3, exclamationIntensity = 1.0,
                                twitchFrequency = 0, twitchIntensity = 0 \<rparr>
              [\<lparr> time = 2.0, ttype = exclaim \<rparr>] ([(10, 1.0, 0)] @ [(10, 1.96, 0)]) initialAnimState))"
proof -
  define tr where "tr = \<lparr> time = 2.0, ttype = exclaim \<rparr>"
  have h1: "tr \<in> set [tr]" by simp
  have h2: "time tr \<notin> processedTriggersRef initialAnimState"
    by (simp add: initialAnimState_def)
  have h3: "\<forall>x \<in> set [(10::real, 1.0::real, 0::real)]. \<not> inWindow (time tr) (fst (snd x))"
    by (simp add: tr_def inWindow_def)
  have h4: "inWindow (time tr) (fst (snd (10::real, 1.96::real, 0::real)))"
    by (simp add: tr_def inWindow_def)
  define P where "P = \<lparr> emphasisProbability = 0.3, exclamationIntensity = 1.0,
                                twitchFrequency = 0, twitchIntensity = 0 \<rparr>"
  define R where "R = (\<lambda>n::nat. 1::real)"
  have r: "length (filter (\<lambda>x. time x = time tr)
        (firedDuring R P [tr]
           ([(10, 1.0, 0)] @ (10, 1.96, 0) # [(10, 2.1, 0), (10, 3.0, 0), (10, 2.0, 0)])
           initialAnimState)) = 1
     \<and> time tr \<notin> time ` set
        (firedDuring R P [tr] [(10, 2.1, 0), (10, 3.0, 0), (10, 2.0, 0)]
           (playingTicks R P [tr] ([(10, 1.0, 0)] @ [(10, 1.96, 0)]) initialAnimState))"
    using trigger_fires_once [OF h1 h2 h3 h4, of R P "[(10, 2.1, 0), (10, 3.0, 0), (10, 2.0, 0)]"]
    by blast
  have t: "time tr = 2.0" by (simp add: tr_def)
  have h3': "\<not> inWindow (time tr) (fst (snd (10::real, 1.0::real, 0::real)))"
    using h3 by simp
  from r h1 h2 h3' h4 show ?thesis
    unfolding t unfolding tr_def P_def R_def by simp
qed

section \<open>Stopping playback\<close>

lemma stop_then_play:
  "playAudio cues triggers ctxTime (stopAudio l) = playAudio cues triggers ctxTime initialLipSync"
  by (simp add: playAudio_def stopAudio_def initialLipSync_def)

lemma stopAudio_resets:
  "visemeCuesRef (stopAudio l) = None"
  "smoothedAmplitudeRef (stopAudio l) = 0"
  "previousJawRotationRef (stopAudio l) = 0"
  "isPlaying (stopAudio l) = False"
  "amplitude (stopAudio l) = 0"
  by (simp_all add: stopAudio_def)

lemma stopPlayback_anim:
  "anim (stopPlayback e) = (anim e)\<lparr> animationState := idle, processedTriggersRef := {} \<rparr>"
  by (simp add: stopPlayback_def Let_def stopAudio_resets stateEffect_def)

lemma stopPlayback_lipSync: "lipSync (stopPlayback e) = stopAudio (lipSync e)"
  by (simp add: stopPlayback_def Let_def)

lemma busy_anim:
  "activeGesture flailingQueued = Some \<lparr> gtype = armFlailBoth, duration = 0.5, intensity = 1 \<rparr>"
  "gestureQueueRef flailingQueued = [\<lparr> gtype = headNod, duration = 0.25, intensity = 1 \<rparr>]"
  by (simp_all add: flailingQueued_def flailing_def queueGesture_def Let_def stateEffect_def
      initialAnimState_def armFlailBoth_gesture_def headNod_gesture_def)

text \<open>
  C2, as stated, fails: stopping playback leaves the active gesture and the gesture
  queue as they are. On \<open>busyEngine\<close> the gesture \<open>armFlailBoth\<close> is still active after the
  stop and \<open>headNod\<close> is still queued, where a fresh engine has neither; after a
  restart the rotations of the active gesture differ from those of a fresh engine.
\<close>

theorem stop_keeps_gesture_counterexample:
  "activeGesture (anim (stopPlayback busyEngine))
     = Some \<lparr> gtype = armFlailBoth, duration = 0.5, intensity = 1 \<rparr>
   \<and> activeGesture (anim freshEngine) = None
   \<and> gestureQueueRef (anim (stopPlayback busyEngine))
       = [\<lparr> gtype = headNod, duration = 0.25, intensity = 1 \<rparr>]
   \<and> gestureQueueRef (anim freshEngine) = []
   \<and> getCurrentGestureRotations (anim (startPlayback None [] 0 (stopPlayback busyEngine)))
       \<noteq> getCurrentGestureRotations (anim (startPlayback None [] 0 freshEngine))"
proof -
  have a: "activeGesture (anim (stopPlayback busyEngine))
     = Some \<lparr> gtype = armFlailBoth, duration = 0.5, intensity = 1 \<rparr>"
    and q: "gestureQueueRef (anim (stopPlayback busyEngine))
       = [\<lparr> gtype = headNod, duration = 0.25, intensity = 1 \<rparr>]"
    by (simp_all add: stopPlayback_anim busyEngine_def busy_anim)
  have f: "activeGesture (anim freshEngine) = None" "gestureQueueRef (anim freshEngine) = []"
    by (simp_all add: freshEngine_def initialAnimState_def)
  have "activeGesture (anim (startPlayback None [] 0 (stopPlayback busyEngine)))
      = Some \<lparr> gtype = armFlailBoth, duration = 0.5, intensity = 1 \<rparr>"
    using a by (simp add: startPlayback_def Let_def stateEffect_def playAudio_def)
  then have "getCurrentGestureRotations (anim (startPlayback None [] 0 (stopPlayback busyEngine)))
      \<noteq> Inr None"
    by (simp add: getCurrentGestureRotations_def split: option.splits)
  moreover have "getCurrentGestureRotations (anim (startPlayback None [] 0 freshEngine)) = Inr None"
    by (simp add: startPlayback_def Let_def stateEffect_def playAudio_def freshEngine_def
        initialAnimState_def getCurrentGestureRotations_def)
  ultimately show ?thesis using a q f by simp
qed

text \<open>
  C2, amended. Stopping playback resets the lip-sync state: the event sequence is
  dropped and the smoothed amplitude and jaw accumulators are zero; with \<open>isPlaying\<close>
  false the trigger-dedup set is emptied and the coarse state is idle. The active
  gesture, its progress and start time and the gesture queue are unchanged. After a
  stop followed by a restart the whole lip-sync state, and so the first sample that
  \<open>analyzeAudio\<close> produces, is that of a fresh engine given the same input.
\<close>

theorem stop_resets_lip_sync:
  "visemeCuesRef (lipSync (stopPlayback e)) = None
   \<and> smoothedAmplitudeRef (lipSync (stopPlayback e)) = 0
   \<and> previousJawRotationRef (lipSync (stopPlayback e)) = 0
   \<and> processedTriggersRef (anim (stopPlayback e)) = {}
   \<and> animationState (anim (stopPlayback e)) = idle
   \<and> activeGesture (anim (stopPlayback e)) = activeGesture (anim e)
   \<and> gestureProgress (anim (stopPlayback e)) = gestureProgress (anim e)
   \<and> gestureStartTimeRef (anim (stopPlayback e)) = gestureStartTimeRef (anim e)
   \<and> gestureQueueRef (anim (stopPlayback e)) = gestureQueueRef (anim e)
   \<and> lipSync (startPlayback cues triggers ctxTime (stopPlayback e))
       = lipSync (startPlayback cues triggers ctxTime freshEngine)
   \<and> analyzeAudio average ctxTime' (lipSync (startPlayback cues triggers ctxTime (stopPlayback e)))
       = analyzeAudio average ctxTime' (lipSync (startPlayback cues triggers ctxTime freshEngine))"
proof -
  have l: "lipSync (startPlayback cues triggers ctxTime (stopPlayback e))
       = lipSync (startPlayback cues triggers ctxTime freshEngine)"
    by (simp add: startPlayback_def Let_def stopPlayback_lipSync stop_then_play freshEngine_def)
  then have "analyzeAudio average ctxTime' (lipSync (startPlayback cues triggers ctxTime (stopPlayback e)))
       = analyzeAudio average ctxTime' (lipSync (startPlayback cues triggers ctxTime freshEngine))"
    by simp
  with l show ?thesis
    by (simp add: stopPlayback_anim stopPlayback_lipSync stopAudio_resets)
qed

theorem stop_resets_lip_sync_witness:
  "processedTriggersRef (anim (stopPlayback busyEngine)) = {}
   \<and> activeGesture (anim (stopPlayback busyEngine)) = activeGesture (anim busyEngine)
   \<and> gestureQueueRef (anim (stopPlayback busyEngine)) = gestureQueueRef (anim busyEngine)
   \<and> previousJawRotationRef (lipSync (stopPlayback busyEngine)) = 0
   \<and> analyzeAudio 51 1 (lipSync (startPlayback None [] 0 (stopPlayback busyEngine)))
       = analyzeAudio 51 1 (lipSync (startPlayback None [] 0 freshEngine))"
  using stop_resets_lip_sync [of busyEngine None "[]" 0 51 1] by blast

section \<open>Characters to categories\<close>

lemma map_filter_upt_step:
  "i < n \<Longrightarrow> List.map_filter f [i..<n] =
     (case f i of None \<Rightarrow> List.map_filter f [Suc i..<n] | Some y \<Rightarrow> y # List.map_filter f [Suc i..<n])"
  by (simp add: upt_conv_Cons List.map_filter_simps)

lemma rawCuesLoop_entries:
  "rawCuesLoop alignment i rawCues =
     rawCues @ map cueOf (List.map_filter (validEntry alignment) [i..<length (characters alignment)])"
proof (induction "length (characters alignment) - i" arbitrary: i rawCues)
  case 0
  then show ?case by (subst rawCuesLoop.simps) (simp add: List.map_filter_simps)
next
  case (Suc k)
  then have lt: "i < length (characters alignment)" and k: "k = length (characters alignment) - Suc i"
    by simp_all
  note IH = Suc.hyps(1) [OF k]
  note step = map_filter_upt_step [OF lt, of "validEntry alignment"]
  show ?case
    by (subst rawCuesLoop.simps)
       (simp add: lt IH step validEntry_def Let_def cueOf_def split: option.splits)
qed

lemma set_map_filter_iff:
  "y \<in> set (List.map_filter f xs) \<longleftrightarrow> (\<exists>x \<in> set xs. f x = Some y)"
  by (induction xs) (auto simp: List.map_filter_simps split: option.splits)

lemma validEntry_Some:
  assumes "validEntry alignment i = Some (c, st, en)"
  shows "c = characters alignment ! i \<and> st < en"
proof (cases "at_index (character_start_times_seconds alignment) i")
  case None
  with assms show ?thesis by (simp add: validEntry_def)
next
  case s: (Some a)
  show ?thesis
  proof (cases "at_index (character_end_times_seconds alignment) i")
    case None
    with assms s show ?thesis by (simp add: validEntry_def)
  next
    case (Some b)
    with assms s show ?thesis by (cases "a < b") (simp_all add: validEntry_def)
  qed
qed

lemma validEntries_char:
  assumes "(c, st, en) \<in> set (validEntries alignment)"
  shows "c \<in> set (characters alignment) \<and> st < en"
proof -
  from assms obtain i where "i < length (characters alignment)"
    "validEntry alignment i = Some (c, st, en)"
    by (auto simp: validEntries_def set_map_filter_iff)
  with validEntry_Some [of alignment i c st en] show ?thesis by simp
qed

lemma rawCues_valid:
  "rawCuesLoop alignment 0 [] = map cueOf (validEntries alignment)"
  by (simp add: rawCuesLoop_entries validEntries_def)

lemma char_table_no_TH: "CHAR_TO_VISEME s \<noteq> Some V_TH"
  by (simp add: CHAR_TO_VISEME_def)

lemma charToViseme_no_TH: "charToViseme c \<noteq> V_TH"
  using char_table_no_TH [of "toLowerCase c"]
  by (auto simp: charToViseme_def Let_def split: option.splits)

lemma mergeLoop_visemes:
  "viseme ` set (mergeLoop cues acc) \<subseteq> viseme ` set cues \<union> viseme ` set acc"
proof (induction cues arbitrary: acc)
  case Nil
  then show ?case by simp
next
  case (Cons cue rest)
  show ?case
  proof (cases "acc \<noteq> [] \<and> viseme (last acc) = viseme cue
         \<and> \<bar>endTime (last acc) - startTime cue\<bar> < 0.05")
    case True
    then obtain ys y where acc: "acc = ys @ [y]" by (cases acc rule: rev_cases) auto
    from True acc Cons.IH [of "ys @ [y\<lparr> endTime := endTime cue \<rparr>]"] show ?thesis
      by auto
  next
    case False
    with Cons.IH [of "acc @ [cue]"] show ?thesis by auto
  qed
qed

lemma fillLoop_visemes:
  "viseme ` set (fillLoop cues acc) \<subseteq> viseme ` set cues \<union> viseme ` set acc \<union> {V_sil}"
proof (induction cues arbitrary: acc)
  case Nil
  then show ?case by auto
next
  case (Cons cue rest)
  show ?case
  proof (cases "acc \<noteq> [] \<and> startTime cue > endTime (last acc) + 0.01")
    case True
    with Cons.IH [of "acc @ [\<lparr> viseme = V_sil, startTime = endTime (last acc),
                               endTime = startTime cue \<rparr>] @ [cue]"]
    show ?thesis by auto
  next
    case False
    with Cons.IH [of "acc @ [cue]"] show ?thesis by auto
  qed
qed

lemma timeline_visemes:
  assumes "ev \<in> set (generateVisemeTimeline alignment)"
  shows "viseme ev = V_sil \<or> (\<exists>c \<in> set (characters alignment). viseme ev = charToViseme c)"
proof -
  let ?raw = "map cueOf (validEntries alignment)"
  let ?merged = "mergeLoop ?raw []"
  from assms have tl: "ev \<in> set (fillLoop (addLeadingSilence ?merged) [])"
    by (cases "characters alignment = []")
       (simp_all add: generateVisemeTimeline_def Let_def rawCues_valid)
  have raw: "\<exists>c \<in> set (characters alignment). viseme x = charToViseme c" if "x \<in> set ?raw" for x
  proof -
    from that obtain c st en where "(c, st, en) \<in> set (validEntries alignment)" "x = cueOf (c, st, en)"
      by auto
    with validEntries_char [of c st en alignment] show ?thesis by (auto simp: cueOf_def)
  qed
  from tl fillLoop_visemes [of "addLeadingSilence ?merged" "[]"]
  have "viseme ev = V_sil \<or> viseme ev \<in> viseme ` set (addLeadingSilence ?merged)" by auto
  then have "viseme ev = V_sil \<or> viseme ev \<in> viseme ` set ?merged"
    by (auto simp: addLeadingSilence_def split: if_splits)
  with mergeLoop_visemes [of ?raw "[]"]
  have "viseme ev = V_sil \<or> viseme ev \<in> viseme ` set ?raw" by auto
  then show ?thesis
  proof
    assume "viseme ev = V_sil"
    then show ?thesis by simp
  next
    assume "viseme ev \<in> viseme ` set ?raw"
    then obtain x where "x \<in> set ?raw" "viseme ev = viseme x" by auto
    with raw [of x] show ?thesis by auto
  qed
qed

lemma timeline_no_TH:
  assumes "ev \<in> set (generateVisemeTimeline alignment)"
  shows "viseme ev \<noteq> V_TH"
proof -
  from timeline_visemes [OF assms] show ?thesis
  proof
    assume "viseme ev = V_sil"
    then show ?thesis by simp
  next
    assume "\<exists>c \<in> set (characters alignment). viseme ev = charToViseme c"
    then obtain c where "viseme ev = charToViseme c" by blast
    with charToViseme_no_TH [of c] show ?thesis by simp
  qed
qed

lemma getVisemeAtIndex_cases:
  "DIGRAPH_TO_VISEME (charAt txt i @ charAt txt (i + 1)) = Some v
     \<Longrightarrow> getVisemeAtIndex txt i = (v, True)"
  "DIGRAPH_TO_VISEME (charAt txt i @ charAt txt (i + 1)) = None
     \<Longrightarrow> CHAR_TO_VISEME (charAt txt i) = Some v \<Longrightarrow> getVisemeAtIndex txt i = (v, False)"
  "DIGRAPH_TO_VISEME (charAt txt i @ charAt txt (i + 1)) = None
     \<Longrightarrow> CHAR_TO_VISEME (charAt txt i) = None \<Longrightarrow> getVisemeAtIndex txt i = (V_sil, False)"
  by (simp_all add: getVisemeAtIndex_def Let_def)

lemma th_timeline:
  "generateVisemeTimeline thAlignment =
     [\<lparr> viseme = V_DD, startTime = 0, endTime = 0.1 \<rparr>,
      \<lparr> viseme = V_sil, startTime = 0.1, endTime = 0.2 \<rparr>]"
  by (simp add: generateVisemeTimeline_def thAlignment_def Let_def rawCuesLoop.simps at_index_def
      charToViseme_def toLowerCase_def toLowerCaseChar_def CHAR_TO_VISEME_def
      addLeadingSilence_def)

lemma th_raw:
  "map viseme (rawCuesLoop thAlignment 0 []) = [V_DD, V_sil]"
  by (simp add: thAlignment_def Let_def rawCuesLoop.simps at_index_def
      charToViseme_def toLowerCase_def toLowerCaseChar_def CHAR_TO_VISEME_def)

lemma th_spec: "spec_categories (characters thAlignment) = [V_TH]"
  by (simp add: thAlignment_def toLowerCase_def toLowerCaseChar_def DIGRAPH_TO_VISEME_def)

lemma th_index: "getVisemeAtIndex ''th'' 0 = (V_TH, True)"
  by (simp add: getVisemeAtIndex_def charAt_def Let_def toLowerCase_def toLowerCaseChar_def
      DIGRAPH_TO_VISEME_def)


text \<open>
  C3, as stated, fails: on the characters \<open>t\<close>, \<open>h\<close> the builder makes one event per
  character, of categories DD and sil, where the digraph-first mapping of the claim
  gives the single category TH for the two positions (as \<open>getVisemeAtIndex\<close> does on the
  text \<open>th\<close>).
\<close>

theorem builder_ignores_digraphs_counterexample:
  "map viseme (rawCuesLoop thAlignment 0 []) = [V_DD, V_sil]
   \<and> spec_categories (characters thAlignment) = [V_TH]
   \<and> map viseme (rawCuesLoop thAlignment 0 []) \<noteq> spec_categories (characters thAlignment)
   \<and> generateVisemeTimeline thAlignment =
       [\<lparr> viseme = V_DD, startTime = 0, endTime = 0.1 \<rparr>,
        \<lparr> viseme = V_sil, startTime = 0.1, endTime = 0.2 \<rparr>]
   \<and> getVisemeAtIndex ''th'' 0 = (V_TH, True)"
  using th_raw th_spec th_timeline th_index by simp

text \<open>
  C3, amended. The Timeline Builder maps each alignment character on its own: the raw
  events are, in order, one event per entry with valid timing, whose category is the
  entry of the single-character table for the lower-cased character, or silence for an
  unknown character; no digraph is looked up, so every event of a timeline is silence
  or the category of one character, and none has the category TH. The digraph table is
  consulted, before the single-character table and with a lookahead of one character,
  by \<open>getVisemeAtIndex\<close> on a text: a digraph match is reported as consuming two
  positions, otherwise the single-character table decides, otherwise silence.
\<close>

theorem builder_maps_single_characters:
  "rawCuesLoop alignment 0 [] = map cueOf (validEntries alignment)
   \<and> length (rawCuesLoop alignment 0 []) = length (validEntries alignment)
   \<and> cueOf (c, st, en) = \<lparr> viseme = charToViseme c, startTime = st, endTime = en \<rparr>
   \<and> charToViseme c = (case CHAR_TO_VISEME (toLowerCase c) of Some v \<Rightarrow> v | None \<Rightarrow> V_sil)
   \<and> (\<forall>ev \<in> set (generateVisemeTimeline alignment).
         viseme ev \<noteq> V_TH
         \<and> (viseme ev = V_sil \<or> (\<exists>ch \<in> set (characters alignment). viseme ev = charToViseme ch)))
   \<and> (DIGRAPH_TO_VISEME (charAt txt i @ charAt txt (i + 1)) = Some v
        \<longrightarrow> getVisemeAtIndex txt i = (v, True))
   \<and> (DIGRAPH_TO_VISEME (charAt txt i @ charAt txt (i + 1)) = None
        \<and> CHAR_TO_VISEME (charAt txt i) = Some v
        \<longrightarrow> getVisemeAtIndex txt i = (v, False))
   \<and> (DIGRAPH_TO_VISEME (charAt txt i @ charAt txt (i + 1)) = None
        \<and> CHAR_TO_VISEME (charAt txt i) = None
        \<longrightarrow> getVisemeAtIndex txt i = (V_sil, False))"
proof -
  have fa: "rawCuesLoop alignment 0 [] = map cueOf (validEntries alignment)"
    by (rule rawCues_valid)
  then have fb: "length (rawCuesLoop alignment 0 []) = length (validEntries alignment)" by simp
  have fc: "cueOf (c, st, en) = \<lparr> viseme = charToViseme c, startTime = st, endTime = en \<rparr>"
    by (simp add: cueOf_def)
  have fd: "charToViseme c = (case CHAR_TO_VISEME (toLowerCase c) of Some v \<Rightarrow> v | None \<Rightarrow> V_sil)"
    by (simp add: charToViseme_def Let_def)
  have fe: "\<forall>ev \<in> set (generateVisemeTimeline alignment).
         viseme ev \<noteq> V_TH
         \<and> (viseme ev = V_sil \<or> (\<exists>ch \<in> set (characters alignment). viseme ev = charToViseme ch))"
    using timeline_no_TH timeline_visemes by blast
  note g = getVisemeAtIndex_cases [of "txt" i]
  from fa fb fc fd fe g(1) [of v] g(2) [of v] g(3)
  show ?thesis by blast
qed

theorem builder_maps_single_characters_witness:
  "rawCuesLoop thAlignment 0 [] = map cueOf (validEntries thAlignment)
   \<and> \<lparr> viseme = V_DD, startTime = 0, endTime = 0.1 \<rparr> \<in> set (generateVisemeTimeline thAlignment)
   \<and> viseme \<lparr> viseme = V_DD, startTime = 0, endTime = 0.1 \<rparr> \<noteq> V_TH
   \<and> DIGRAPH_TO_VISEME (charAt ''the'' 0 @ charAt ''the'' (0 + 1)) = Some V_TH
   \<and> getVisemeAtIndex ''the'' 0 = (V_TH, True)
   \<and> DIGRAPH_TO_VISEME (charAt ''the'' 2 @ charAt ''the'' (2 + 1)) = None
   \<and> CHAR_TO_VISEME (charAt ''the'' 2) = Some V_E
   \<and> getVisemeAtIndex ''the'' 2 = (V_E, False)
   \<and> DIGRAPH_TO_VISEME (charAt ''7'' 0 @ charAt ''7'' (0 + 1)) = None
   \<and> CHAR_TO_VISEME (charAt ''7'' 0) = None
   \<and> getVisemeAtIndex ''7'' 0 = (V_sil, False)"
proof -
  define dd where "dd = \<lparr> viseme = V_DD, startTime = 0, endTime = 0.1 \<rparr>"
  have m: "dd \<in> set (generateVisemeTimeline thAlignment)"
    by (simp add: th_timeline dd_def)
  have h1: "DIGRAPH_TO_VISEME (charAt ''the'' 0 @ charAt ''the'' (0 + 1)) = Some V_TH"
    by (simp add: charAt_def toLowerCase_def toLowerCaseChar_def DIGRAPH_TO_VISEME_def)
  have h2: "DIGRAPH_TO_VISEME (charAt ''the'' 2 @ charAt ''the'' (2 + 1)) = None
       \<and> CHAR_TO_VISEME (charAt ''the'' 2) = Some V_E"
    by (simp add: charAt_def toLowerCase_def toLowerCaseChar_def DIGRAPH_TO_VISEME_def
        CHAR_TO_VISEME_def)
  have h3: "DIGRAPH_TO_VISEME (charAt ''7'' 0 @ charAt ''7'' (0 + 1)) = None
       \<and> CHAR_TO_VISEME (charAt ''7'' 0) = None"
    by (simp add: charAt_def toLowerCase_def toLowerCaseChar_def DIGRAPH_TO_VISEME_def
        CHAR_TO_VISEME_def)
  note t1 = builder_maps_single_characters [of thAlignment "''t''" 0 "0.1" "''the''" 0 V_TH]
  note t2 = builder_maps_single_characters [of thAlignment "''t''" 0 "0.1" "''the''" 2 V_E]
  note t3 = builder_maps_single_characters [of thAlignment "''t''" 0 "0.1" "''7''" 0 V_sil]
  from t1 have r: "rawCuesLoop thAlignment 0 [] = map cueOf (validEntries thAlignment)" by blast
  from t1 m have n: "viseme dd \<noteq> V_TH" by blast
  from t1 h1 have g1: "getVisemeAtIndex ''the'' 0 = (V_TH, True)" by blast
  from t2 h2 have g2: "getVisemeAtIndex ''the'' 2 = (V_E, False)" by blast
  from t3 h3 have g3: "getVisemeAtIndex ''7'' 0 = (V_sil, False)" by blast
  from r m n h1 g1 h2 g2 h3 g3 show ?thesis unfolding dd_def by blast
qed

section \<open>Shape of the timeline\<close>

lemma wellTimed_Nil [simp]: "wellTimed []"
  by (simp add: wellTimed_def)

lemma wellTimed_Cons:
  "wellTimed (c # cs) \<longleftrightarrow>
     startTime c < endTime c \<and> wellTimed cs \<and> (cs \<noteq> [] \<longrightarrow> endTime c \<le> startTime (hd cs))"
  by (cases cs) (auto simp: wellTimed_def)

lemma wellTimed_append:
  "wellTimed (xs @ ys) \<longleftrightarrow>
     wellTimed xs \<and> wellTimed ys
     \<and> (xs \<noteq> [] \<and> ys \<noteq> [] \<longrightarrow> endTime (last xs) \<le> startTime (hd ys))"
  by (auto simp: wellTimed_def successively_append_iff)

lemma gapsAtMost_Nil [simp]: "gapsAtMost d []"
  by (simp add: gapsAtMost_def)

lemma gapsAtMost_Cons:
  "gapsAtMost d (c # cs) \<longleftrightarrow>
     startTime c < endTime c \<and> gapsAtMost d cs
     \<and> (cs \<noteq> [] \<longrightarrow> endTime c \<le> startTime (hd cs) \<and> startTime (hd cs) \<le> endTime c + d)"
  by (cases cs) (auto simp: gapsAtMost_def)

lemma gapsAtMost_append:
  "gapsAtMost d (xs @ ys) \<longleftrightarrow>
     gapsAtMost d xs \<and> gapsAtMost d ys
     \<and> (xs \<noteq> [] \<and> ys \<noteq> [] \<longrightarrow>
          endTime (last xs) \<le> startTime (hd ys) \<and> startTime (hd ys) \<le> endTime (last xs) + d)"
  by (auto simp: gapsAtMost_def successively_append_iff)

lemma ordered_entries_wellTimed:
  assumes "orderedFrom t es" and "\<forall>(c, st, en) \<in> set es. st < en"
  shows "wellTimed (map cueOf es) \<and> (es \<noteq> [] \<longrightarrow> t \<le> startTime (hd (map cueOf es)))"
  using assms
proof (induction t es rule: orderedFrom.induct)
  case (1 t)
  then show ?case by simp
next
  case (2 t c st en rest)
  from "2.prems" have "orderedFrom en rest" "\<forall>(c, st, en) \<in> set rest. st < en" "t \<le> st" "st < en"
    by auto
  with "2.IH" show ?case
    by (auto simp: wellTimed_Cons cueOf_def)
qed

lemma mergeLoop_shape:
  assumes "wellTimed (acc @ cues)"
  shows "wellTimed (mergeLoop cues acc)
    \<and> (acc @ cues = [] \<longrightarrow> mergeLoop cues acc = [])
    \<and> (acc @ cues \<noteq> [] \<longrightarrow> mergeLoop cues acc \<noteq> []
          \<and> startTime (hd (mergeLoop cues acc)) = startTime (hd (acc @ cues))
          \<and> endTime (last (mergeLoop cues acc)) = endTime (last (acc @ cues)))"
  using assms
proof (induction cues arbitrary: acc)
  case Nil
  then show ?case by simp
next
  case (Cons cue rest)
  show ?case
  proof (cases "acc \<noteq> [] \<and> viseme (last acc) = viseme cue
         \<and> \<bar>endTime (last acc) - startTime cue\<bar> < 0.05")
    case True
    then obtain ys y where acc: "acc = ys @ [y]" by (cases acc rule: rev_cases) auto
    let ?y = "y\<lparr> endTime := endTime cue \<rparr>"
    from Cons.prems acc have w: "wellTimed (ys @ [y] @ cue # rest)" by simp
    then have "wellTimed ((ys @ [?y]) @ rest)"
      by (cases "ys = []"; cases "rest = []")
         (auto simp: wellTimed_append wellTimed_Cons)
    from Cons.IH [OF this] have IH:
      "wellTimed (mergeLoop rest (ys @ [?y]))"
      "mergeLoop rest (ys @ [?y]) \<noteq> []"
      "startTime (hd (mergeLoop rest (ys @ [?y]))) = startTime (hd ((ys @ [?y]) @ rest))"
      "endTime (last (mergeLoop rest (ys @ [?y]))) = endTime (last ((ys @ [?y]) @ rest))"
      by simp_all
    have step: "mergeLoop (cue # rest) acc = mergeLoop rest (ys @ [?y])"
      using True acc by simp
    have "startTime (hd ((ys @ [?y]) @ rest)) = startTime (hd (acc @ cue # rest))"
      using acc by (cases ys) simp_all
    moreover have "endTime (last ((ys @ [?y]) @ rest)) = endTime (last (acc @ cue # rest))"
      using acc by (cases "rest = []") simp_all
    ultimately show ?thesis using IH step by simp
  next
    case False
    then have step: "mergeLoop (cue # rest) acc = mergeLoop rest (acc @ [cue])" by auto
    from Cons.prems have "wellTimed ((acc @ [cue]) @ rest)" by simp
    from Cons.IH [OF this] step show ?thesis by simp
  qed
qed

lemma addLeadingSilence_shape:
  assumes "wellTimed m" "m \<noteq> []" "0 \<le> startTime (hd m)"
  shows "wellTimed (addLeadingSilence m) \<and> addLeadingSilence m \<noteq> []
    \<and> startTime (hd (addLeadingSilence m)) = 0
    \<and> endTime (last (addLeadingSilence m)) = endTime (last m)"
  using assms by (auto simp: addLeadingSilence_def wellTimed_Cons)

lemma fillLoop_shape:
  assumes "gapsAtMost 0.01 acc" "wellTimed cues"
    and "acc \<noteq> [] \<and> cues \<noteq> [] \<longrightarrow> endTime (last acc) \<le> startTime (hd cues)"
  shows "gapsAtMost 0.01 (fillLoop cues acc)
    \<and> (acc @ cues \<noteq> [] \<longrightarrow> fillLoop cues acc \<noteq> []
          \<and> startTime (hd (fillLoop cues acc)) = startTime (hd (acc @ cues))
          \<and> endTime (last (fillLoop cues acc)) = endTime (last (acc @ cues)))"
  using assms
proof (induction cues arbitrary: acc)
  case Nil
  then show ?case by simp
next
  case (Cons cue rest)
  from Cons.prems(2) have cue: "startTime cue < endTime cue" and rest: "wellTimed rest"
    and link: "rest \<noteq> [] \<longrightarrow> endTime cue \<le> startTime (hd rest)"
    by (simp_all add: wellTimed_Cons)
  show ?case
  proof (cases "acc \<noteq> [] \<and> startTime cue > endTime (last acc) + 0.01")
    case True
    let ?sil = "\<lparr> viseme = V_sil, startTime = endTime (last acc), endTime = startTime cue \<rparr>"
    let ?acc = "acc @ [?sil] @ [cue]"
    have step: "fillLoop (cue # rest) acc = fillLoop rest ?acc" using True by simp
    have "gapsAtMost 0.01 ?acc"
      using True Cons.prems(1) cue by (simp add: gapsAtMost_append gapsAtMost_Cons)
    moreover have "?acc \<noteq> [] \<and> rest \<noteq> [] \<longrightarrow> endTime (last ?acc) \<le> startTime (hd rest)"
      using link by simp
    ultimately have IH: "gapsAtMost 0.01 (fillLoop rest ?acc)"
      "fillLoop rest ?acc \<noteq> []"
      "startTime (hd (fillLoop rest ?acc)) = startTime (hd (?acc @ rest))"
      "endTime (last (fillLoop rest ?acc)) = endTime (last (?acc @ rest))"
      using Cons.IH [OF _ rest, of ?acc] by simp_all
    have "startTime (hd (?acc @ rest)) = startTime (hd (acc @ cue # rest))"
      using True by (cases acc) simp_all
    moreover have "endTime (last (?acc @ rest)) = endTime (last (acc @ cue # rest))"
      by (cases "rest = []") simp_all
    ultimately show ?thesis using IH step by simp
  next
    case False
    let ?acc = "acc @ [cue]"
    have step: "fillLoop (cue # rest) acc = fillLoop rest ?acc" using False by auto
    have "gapsAtMost 0.01 ?acc"
      using False Cons.prems(1,3) cue by (auto simp: gapsAtMost_append gapsAtMost_Cons)
    moreover have "?acc \<noteq> [] \<and> rest \<noteq> [] \<longrightarrow> endTime (last ?acc) \<le> startTime (hd rest)"
      using link by simp
    ultimately have IH: "gapsAtMost 0.01 (fillLoop rest ?acc)"
      "fillLoop rest ?acc \<noteq> []"
      "startTime (hd (fillLoop rest ?acc)) = startTime (hd (?acc @ rest))"
      "endTime (last (fillLoop rest ?acc)) = endTime (last (?acc @ rest))"
      using Cons.IH [OF _ rest, of ?acc] by simp_all
    then show ?thesis using step by simp
  qed
qed


lemma validEntries_empty_chars: "characters alignment = [] \<Longrightarrow> validEntries alignment = []"
  by (simp add: validEntries_def List.map_filter_simps)

lemma timeline_shape:
  assumes "orderedFrom 0 (validEntries alignment)"
  shows "gapsAtMost 0.01 (generateVisemeTimeline alignment)
    \<and> (validEntries alignment = [] \<longrightarrow> generateVisemeTimeline alignment = [])
    \<and> (validEntries alignment \<noteq> [] \<longrightarrow>
          generateVisemeTimeline alignment \<noteq> []
          \<and> startTime (hd (generateVisemeTimeline alignment)) = 0
          \<and> endTime (last (generateVisemeTimeline alignment))
              = snd (snd (last (validEntries alignment))))"
proof (cases "validEntries alignment = []")
  case True
  then have "generateVisemeTimeline alignment = []"
    by (simp add: generateVisemeTimeline_def Let_def rawCues_valid addLeadingSilence_def)
  with True show ?thesis by simp
next
  case False
  let ?es = "validEntries alignment"
  let ?raw = "map cueOf ?es"
  let ?merged = "mergeLoop ?raw []"
  let ?led = "addLeadingSilence ?merged"
  from False have chars: "characters alignment \<noteq> []" using validEntries_empty_chars by blast
  then have tl: "generateVisemeTimeline alignment = fillLoop ?led []"
    by (simp add: generateVisemeTimeline_def Let_def rawCues_valid)
  have pos: "\<forall>(c, st, en) \<in> set ?es. st < en" using validEntries_char by blast
  from ordered_entries_wellTimed [OF assms pos] False
  have raw: "wellTimed ?raw" "0 \<le> startTime (hd ?raw)" "?raw \<noteq> []" by simp_all
  from mergeLoop_shape [of "[]" ?raw] raw
  have merged: "wellTimed ?merged" "?merged \<noteq> []"
    "startTime (hd ?merged) = startTime (hd ?raw)" "endTime (last ?merged) = endTime (last ?raw)"
    by simp_all
  from addLeadingSilence_shape [OF merged(1,2)] merged(3) raw(2)
  have led: "wellTimed ?led" "?led \<noteq> []" "startTime (hd ?led) = 0"
    "endTime (last ?led) = endTime (last ?merged)"
    by simp_all
  from fillLoop_shape [of "[]" ?led] led
  have filled: "gapsAtMost 0.01 (fillLoop ?led [])" "fillLoop ?led [] \<noteq> []"
    "startTime (hd (fillLoop ?led [])) = 0" "endTime (last (fillLoop ?led [])) = endTime (last ?led)"
    by simp_all
  have "endTime (last ?raw) = snd (snd (last ?es))"
    using False by (simp add: last_map cueOf_def split: prod.splits)
  with filled led(4) merged(4) tl False show ?thesis by simp
qed

lemma gaps_strictly_increasing:
  "gapsAtMost d cues \<Longrightarrow> successively (\<lambda>a b. startTime a < startTime b) cues"
proof (induction cues)
  case Nil
  then show ?case by simp
next
  case (Cons c cs)
  then show ?case by (cases cs) (auto simp: gapsAtMost_Cons)
qed

lemma gaps_cover:
  assumes "gapsAtMost d cues" "cues \<noteq> []"
    and "startTime (hd cues) \<le> t" "t < endTime (last cues)"
  shows "(\<exists>c \<in> set cues. startTime c \<le> t \<and> t < endTime c)
    \<or> (\<exists>i. Suc i < length cues \<and> endTime (cues ! i) \<le> t \<and> t < startTime (cues ! Suc i)
           \<and> startTime (cues ! Suc i) \<le> endTime (cues ! i) + d)"
  using assms
proof (induction cues)
  case Nil
  then show ?case by simp
next
  case (Cons c cs)
  show ?case
  proof (cases "t < endTime c")
    case True
    with Cons.prems(3) show ?thesis by auto
  next
    case False
    with Cons.prems(4) have ne: "cs \<noteq> []" by auto
    from Cons.prems(1) ne have g: "gapsAtMost d cs" "endTime c \<le> startTime (hd cs)"
      "startTime (hd cs) \<le> endTime c + d"
      by (simp_all add: gapsAtMost_Cons)
    show ?thesis
    proof (cases "t < startTime (hd cs)")
      case True
      with False g ne have "Suc 0 < length (c # cs) \<and> endTime ((c # cs) ! 0) \<le> t
          \<and> t < startTime ((c # cs) ! Suc 0)
          \<and> startTime ((c # cs) ! Suc 0) \<le> endTime ((c # cs) ! 0) + d"
        by (cases cs) auto
      then show ?thesis by blast
    next
      case False
      with Cons.IH [OF g(1) ne] Cons.prems(4) ne
      have "(\<exists>c \<in> set cs. startTime c \<le> t \<and> t < endTime c)
        \<or> (\<exists>i. Suc i < length cs \<and> endTime (cs ! i) \<le> t \<and> t < startTime (cs ! Suc i)
           \<and> startTime (cs ! Suc i) \<le> endTime (cs ! i) + d)"
        by simp
      then show ?thesis
      proof
        assume "\<exists>c \<in> set cs. startTime c \<le> t \<and> t < endTime c"
        then show ?thesis by auto
      next
        assume "\<exists>i. Suc i < length cs \<and> endTime (cs ! i) \<le> t \<and> t < startTime (cs ! Suc i)
           \<and> startTime (cs ! Suc i) \<le> endTime (cs ! i) + d"
        then obtain i where "Suc i < length cs" "endTime (cs ! i) \<le> t" "t < startTime (cs ! Suc i)"
          "startTime (cs ! Suc i) \<le> endTime (cs ! i) + d" by blast
        then have "Suc (Suc i) < length (c # cs) \<and> endTime ((c # cs) ! Suc i) \<le> t
            \<and> t < startTime ((c # cs) ! Suc (Suc i))
            \<and> startTime ((c # cs) ! Suc (Suc i)) \<le> endTime ((c # cs) ! Suc i) + d"
          by simp
        then show ?thesis by blast
      qed
    qed
  qed
qed

lemma gap_timeline:
  "generateVisemeTimeline gapAlignment =
     [\<lparr> viseme = V_aa, startTime = 0, endTime = 0.1 \<rparr>,
      \<lparr> viseme = V_PP, startTime = 0.105, endTime = 0.2 \<rparr>]"
  by (simp add: generateVisemeTimeline_def gapAlignment_def Let_def rawCuesLoop.simps at_index_def
      charToViseme_def toLowerCase_def toLowerCaseChar_def CHAR_TO_VISEME_def
      addLeadingSilence_def)

lemma gap_entries:
  "validEntries gapAlignment = [(''a'', 0, 0.1), (''b'', 0.105, 0.2)]"
  by (simp add: validEntries_def gapAlignment_def upt_rec validEntry_def
      at_index_def)

lemma overlap_timeline:
  "generateVisemeTimeline overlapAlignment =
     [\<lparr> viseme = V_aa, startTime = 0, endTime = 0.2 \<rparr>,
      \<lparr> viseme = V_PP, startTime = 0.1, endTime = 0.3 \<rparr>]"
  by (simp add: generateVisemeTimeline_def overlapAlignment_def Let_def rawCuesLoop.simps at_index_def
      charToViseme_def toLowerCase_def toLowerCaseChar_def CHAR_TO_VISEME_def
      addLeadingSilence_def)

text \<open>
  C1, as stated, fails. The characters \<open>a\<close> in [0, 0.1] and \<open>b\<close> in [0.105, 0.2] are valid
  and in time order, and the timeline built from them is the two events themselves: the
  gap of 5 ms is not filled, consecutive events do not share a boundary, and the
  instant 0.102 of [0, 0.2] lies in no event. And where the times of valid entries
  overlap, as for \<open>a\<close> in [0, 0.2] and \<open>b\<close> in [0.1, 0.3], so do the events built.
\<close>

theorem timeline_gap_counterexample:
  "orderedFrom 0 (validEntries gapAlignment)
   \<and> generateVisemeTimeline gapAlignment =
       [\<lparr> viseme = V_aa, startTime = 0, endTime = 0.1 \<rparr>,
        \<lparr> viseme = V_PP, startTime = 0.105, endTime = 0.2 \<rparr>]
   \<and> getTimelineDuration (generateVisemeTimeline gapAlignment) = 0.2
   \<and> \<not> gapsAtMost 0 (generateVisemeTimeline gapAlignment)
   \<and> findCue (generateVisemeTimeline gapAlignment) 0.102 = None
   \<and> generateVisemeTimeline overlapAlignment =
       [\<lparr> viseme = V_aa, startTime = 0, endTime = 0.2 \<rparr>,
        \<lparr> viseme = V_PP, startTime = 0.1, endTime = 0.3 \<rparr>]
   \<and> \<not> wellTimed (generateVisemeTimeline overlapAlignment)"
  by (simp add: gap_timeline gap_entries overlap_timeline getTimelineDuration_def
      gapsAtMost_def wellTimed_def)

lemma gapsAtMost_nth:
  assumes "gapsAtMost d cues"
  shows "(\<forall>c \<in> set cues. startTime c < endTime c)
    \<and> (\<forall>i. Suc i < length cues \<longrightarrow>
          startTime (cues ! i) < startTime (cues ! Suc i)
          \<and> endTime (cues ! i) \<le> startTime (cues ! Suc i)
          \<and> startTime (cues ! Suc i) \<le> endTime (cues ! i) + d)"
proof -
  from assms have a: "\<forall>c \<in> set cues. startTime c < endTime c"
    and b: "\<forall>i. Suc i < length cues \<longrightarrow>
          endTime (cues ! i) \<le> startTime (cues ! Suc i)
          \<and> startTime (cues ! Suc i) \<le> endTime (cues ! i) + d"
    by (simp_all add: gapsAtMost_def list_all_iff successively_conv_nth)
  have "startTime (cues ! i) < startTime (cues ! Suc i)" if "Suc i < length cues" for i
  proof -
    from that have "cues ! i \<in> set cues" by simp
    with a b that show ?thesis by fastforce
  qed
  with a b show ?thesis by blast
qed

text \<open>
  C1, amended. For an alignment whose valid entries (start and end defined, start
  before end) follow each other in time from 0 on, the events built have a positive
  duration, are strictly increasing in start time and do not overlap, and each event
  starts at most 10 ms after the end of the one before it. Without a valid entry the
  timeline is empty; otherwise it starts at 0 and ends at the end time of the last
  valid entry, the duration of the timeline. Every instant from 0 up to that duration
  lies in an event or in a gap of at most 10 ms between two consecutive events.
\<close>

theorem timeline_ordered_small_gaps:
  assumes "orderedFrom 0 (validEntries alignment)"
  shows "(\<forall>c \<in> set (generateVisemeTimeline alignment). startTime c < endTime c)
    \<and> (\<forall>i. Suc i < length (generateVisemeTimeline alignment) \<longrightarrow>
          startTime (generateVisemeTimeline alignment ! i)
            < startTime (generateVisemeTimeline alignment ! Suc i)
          \<and> endTime (generateVisemeTimeline alignment ! i)
            \<le> startTime (generateVisemeTimeline alignment ! Suc i)
          \<and> startTime (generateVisemeTimeline alignment ! Suc i)
            \<le> endTime (generateVisemeTimeline alignment ! i) + 0.01)
    \<and> (validEntries alignment = [] \<longrightarrow> generateVisemeTimeline alignment = [])
    \<and> (validEntries alignment \<noteq> [] \<longrightarrow>
          generateVisemeTimeline alignment \<noteq> []
          \<and> startTime (hd (generateVisemeTimeline alignment)) = 0
          \<and> endTime (last (generateVisemeTimeline alignment))
              = snd (snd (last (validEntries alignment)))
          \<and> getTimelineDuration (generateVisemeTimeline alignment)
              = snd (snd (last (validEntries alignment))))
    \<and> (\<forall>t. 0 \<le> t \<and> t < getTimelineDuration (generateVisemeTimeline alignment) \<longrightarrow>
          (\<exists>c \<in> set (generateVisemeTimeline alignment). startTime c \<le> t \<and> t < endTime c)
          \<or> (\<exists>i. Suc i < length (generateVisemeTimeline alignment)
                \<and> endTime (generateVisemeTimeline alignment ! i) \<le> t
                \<and> t < startTime (generateVisemeTimeline alignment ! Suc i)
                \<and> startTime (generateVisemeTimeline alignment ! Suc i)
                    \<le> endTime (generateVisemeTimeline alignment ! i) + 0.01))"
proof -
  let ?tl = "generateVisemeTimeline alignment"
  note sh = timeline_shape [OF assms]
  from sh have g: "gapsAtMost 0.01 ?tl" by blast
  note n = gapsAtMost_nth [OF g]
  have dur: "validEntries alignment \<noteq> [] \<longrightarrow>
      getTimelineDuration ?tl = snd (snd (last (validEntries alignment)))"
    using sh by (simp add: getTimelineDuration_def)
  have cov: "(\<exists>c \<in> set ?tl. startTime c \<le> t \<and> t < endTime c)
          \<or> (\<exists>i. Suc i < length ?tl \<and> endTime (?tl ! i) \<le> t \<and> t < startTime (?tl ! Suc i)
                \<and> startTime (?tl ! Suc i) \<le> endTime (?tl ! i) + 0.01)"
    if "0 \<le> t \<and> t < getTimelineDuration ?tl" for t
  proof (cases "?tl = []")
    case True
    with that have "0 \<le> t" "t < 0" by (simp_all add: getTimelineDuration_def)
    then show ?thesis by linarith
  next
    case False
    with sh have "validEntries alignment \<noteq> []" by blast
    with sh have "startTime (hd ?tl) = 0" by blast
    with that False have "startTime (hd ?tl) \<le> t" "t < endTime (last ?tl)"
      by (simp_all add: getTimelineDuration_def)
    from gaps_cover [OF g False this] show ?thesis .
  qed
  from n sh dur cov show ?thesis by blast
qed

theorem timeline_ordered_small_gaps_witness:
  "orderedFrom 0 (validEntries \<lparr> characters = [''h'', ''i'', ''!''],
       character_start_times_seconds = [0, 0.2, 0.4],
       character_end_times_seconds = [0.2, 0.4, 0.5] \<rparr>)
   \<and> generateVisemeTimeline \<lparr> characters = [''h'', ''i'', ''!''],
       character_start_times_seconds = [0, 0.2, 0.4],
       character_end_times_seconds = [0.2, 0.4, 0.5] \<rparr>
      = [\<lparr> viseme = V_sil, startTime = 0, endTime = 0.2 \<rparr>,
         \<lparr> viseme = V_I, startTime = 0.2, endTime = 0.4 \<rparr>,
         \<lparr> viseme = V_sil, startTime = 0.4, endTime = 0.5 \<rparr>]
   \<and> startTime (hd (generateVisemeTimeline \<lparr> characters = [''h'', ''i'', ''!''],
       character_start_times_seconds = [0, 0.2, 0.4],
       character_end_times_seconds = [0.2, 0.4, 0.5] \<rparr>)) = 0
   \<and> getTimelineDuration (generateVisemeTimeline \<lparr> characters = [''h'', ''i'', ''!''],
       character_start_times_seconds = [0, 0.2, 0.4],
       character_end_times_seconds = [0.2, 0.4, 0.5] \<rparr>) = 0.5
   \<and> startTime (generateVisemeTimeline \<lparr> characters = [''h'', ''i'', ''!''],
       character_start_times_seconds = [0, 0.2, 0.4],
       character_end_times_seconds = [0.2, 0.4, 0.5] \<rparr> ! Suc 0)
      \<le> endTime (generateVisemeTimeline \<lparr> characters = [''h'', ''i'', ''!''],
       character_start_times_seconds = [0, 0.2, 0.4],
       character_end_times_seconds = [0.2, 0.4, 0.5] \<rparr> ! 0) + 0.01"
proof -
  define hi where "hi = \<lparr> characters = [''h'', ''i'', ''!''],
       character_start_times_seconds = [0, 0.2, 0.4],
       character_end_times_seconds = [0.2, 0.4, 0.5::real] \<rparr>"
  have es: "validEntries hi = [(''h'', 0, 0.2), (''i'', 0.2, 0.4), (''!'', 0.4, 0.5)]"
    by (simp add: validEntries_def hi_def upt_rec validEntry_def
        at_index_def)
  have tl: "generateVisemeTimeline hi
      = [\<lparr> viseme = V_sil, startTime = 0, endTime = 0.2 \<rparr>,
         \<lparr> viseme = V_I, startTime = 0.2, endTime = 0.4 \<rparr>,
         \<lparr> viseme = V_sil, startTime = 0.4, endTime = 0.5 \<rparr>]"
    by (simp add: generateVisemeTimeline_def hi_def Let_def rawCuesLoop.simps at_index_def
      charToViseme_def toLowerCase_def toLowerCaseChar_def CHAR_TO_VISEME_def
      addLeadingSilence_def)
  have o: "orderedFrom 0 (validEntries hi)" by (simp add: es)
  have ne: "validEntries hi \<noteq> []" by (simp add: es)
  have len: "Suc 0 < length (generateVisemeTimeline hi)" by (simp add: tl)
  note t = timeline_ordered_small_gaps [OF o]
  from t ne have a: "startTime (hd (generateVisemeTimeline hi)) = 0" by blast
  from t ne have "getTimelineDuration (generateVisemeTimeline hi) = snd (snd (last (validEntries hi)))"
    by blast
  then have b: "getTimelineDuration (generateVisemeTimeline hi) = 0.5" by (simp add: es)
  from t len have c: "startTime (generateVisemeTimeline hi ! Suc 0)
      \<le> endTime (generateVisemeTimeline hi ! 0) + 0.01" by blast
  from o tl a b c show ?thesis unfolding hi_def by blast
qed

end
